theory Spec2Isabelle
  imports Complex_Main "HOL-Library.AList"
begin

section \<open>JavaScript strings\<close>

text \<open>
  A JavaScript string is modelled as a HOL \<open>string\<close>, one \<open>char\<close> per code unit.
  The functions below are the \<open>String.prototype\<close> methods the sources call.
\<close>

fun startsWith :: "string \<Rightarrow> string \<Rightarrow> bool" where
  "startsWith s [] = True"
| "startsWith [] (p # ps) = False"
| "startsWith (c # cs) (p # ps) = (c = p \<and> startsWith cs ps)"

definition endsWith :: "string \<Rightarrow> string \<Rightarrow> bool" where
  "endsWith s p = startsWith (rev s) (rev p)"

text \<open>\<open>s.indexOf(p)\<close>: the least position at which \<open>p\<close> occurs, \<open>None\<close> for \<open>-1\<close>.\<close>

fun indexOf :: "string \<Rightarrow> string \<Rightarrow> nat option" where
  "indexOf [] p = (if p = [] then Some 0 else None)"
| "indexOf (c # cs) p =
     (if startsWith (c # cs) p then Some 0 else map_option Suc (indexOf cs p))"

definition includes_str :: "string \<Rightarrow> string \<Rightarrow> bool" where
  "includes_str s p = (indexOf s p \<noteq> None)"

text \<open>\<open>s.split(sep)\<close> for a one-character separator: the fields between separators.\<close>

fun splitOn :: "char \<Rightarrow> string \<Rightarrow> string list" where
  "splitOn sep [] = [[]]"
| "splitOn sep (c # cs) =
     (if c = sep then [] # splitOn sep cs
      else (case splitOn sep cs of [] \<Rightarrow> [[c]] | h # t \<Rightarrow> (c # h) # t))"

fun joinWith :: "string \<Rightarrow> string list \<Rightarrow> string" where
  "joinWith sep [] = []"
| "joinWith sep [s] = s"
| "joinWith sep (s # t # rest) = s @ sep @ joinWith sep (t # rest)"

text \<open>
  \<open>GetSubstitution\<close> of \<open>String.prototype.replace\<close> for a string pattern (no capture
  groups): in the replacement text \<open>$$\<close> stands for a dollar sign, \<open>$&\<close> for the
  matched text, \<open>$`\<close> for the text before the match and \<open>$'\<close> for the text after it;
  every other character, a dollar sign before anything else included, stands for itself.
\<close>

fun getSubstitution :: "string \<Rightarrow> string \<Rightarrow> string \<Rightarrow> string \<Rightarrow> string" where
  "getSubstitution matched preceding following [] = []"
| "getSubstitution matched preceding following [c] = [c]"
| "getSubstitution matched preceding following (c # d # r) =
     (if c = CHR ''$'' then
        (if d = CHR ''$'' then CHR ''$'' # getSubstitution matched preceding following r
         else if d = CHR ''&'' then matched @ getSubstitution matched preceding following r
         else if d = CHR 0x60 then preceding @ getSubstitution matched preceding following r
         else if d = CHR 0x27 then following @ getSubstitution matched preceding following r
         else c # getSubstitution matched preceding following (d # r))
      else c # getSubstitution matched preceding following (d # r))"

text \<open>\<open>s.replace(pat, repl)\<close> with a string pattern: only the first match is replaced.\<close>

definition js_replace :: "string \<Rightarrow> string \<Rightarrow> string \<Rightarrow> string" where
  "js_replace s pat repl =
     (case indexOf s pat of
        None \<Rightarrow> s
      | Some i \<Rightarrow>
          (let preceding = take i s; following = drop (i + length pat) s
           in preceding @ getSubstitution pat preceding following repl @ following))"

text \<open>
  The literal replacement of the first occurrence, the reading of "replace the first
  occurrence of \<open>old\<close> by \<open>new\<close>" that \<open>js_replace\<close> is compared with.
\<close>

definition replaceFirstLiteral :: "string \<Rightarrow> string \<Rightarrow> string \<Rightarrow> string" where
  "replaceFirstLiteral s old new =
     (case indexOf s old of
        None \<Rightarrow> s
      | Some i \<Rightarrow> take i s @ new @ drop (i + length old) s)"

section \<open>Node's POSIX path functions\<close>

text \<open>
  \<open>path.normalize\<close> and \<open>path.join\<close> belong to the runtime library, not to the
  repository. They are modelled after the library's POSIX behaviour: the path is cut at
  slashes, empty and \<open>.\<close> segments are dropped, \<open>..\<close> removes the segment before it
  (above the root it is dropped for an absolute path and kept for a relative one), and a
  trailing slash is preserved.
\<close>

fun normalizeSegments :: "bool \<Rightarrow> string list \<Rightarrow> string list \<Rightarrow> string list" where
  "normalizeSegments allowAboveRoot stack [] = rev stack"
| "normalizeSegments allowAboveRoot stack (seg # segs) =
     (if seg = [] \<or> seg = ''.'' then normalizeSegments allowAboveRoot stack segs
      else if seg = ''..'' then
        (case stack of
           [] \<Rightarrow> normalizeSegments allowAboveRoot (if allowAboveRoot then [''..''] else []) segs
         | topSeg # below \<Rightarrow>
             if topSeg = ''..'' then
               normalizeSegments allowAboveRoot (if allowAboveRoot then ''..'' # stack else stack) segs
             else normalizeSegments allowAboveRoot below segs)
      else normalizeSegments allowAboveRoot (seg # stack) segs)"

definition path_normalize :: "string \<Rightarrow> string" where
  "path_normalize p =
     (if p = [] then ''.''
      else
        (let isAbsolute = startsWith p ''/'';
             trailingSeparator = endsWith p ''/'';
             res = joinWith ''/'' (normalizeSegments (\<not> isAbsolute) [] (splitOn CHR ''/'' p))
         in if res = [] then (if isAbsolute then ''/'' else if trailingSeparator then ''./'' else ''.'')
            else (if isAbsolute then ''/'' else []) @ res @ (if trailingSeparator then ''/'' else [])))"

definition path_join :: "string list \<Rightarrow> string" where
  "path_join args =
     (let parts = filter (\<lambda>a. a \<noteq> []) args
      in if parts = [] then ''.'' else path_normalize (joinWith ''/'' parts))"

section \<open>The sandbox: \<open>VirtualFileSystem\<close>\<close>

record VirtualFile =
  vf_path :: string
  vf_content :: string
  vf_createdAt :: int
  vf_modifiedAt :: int
  vf_permissions :: string

datatype OperationType = OpRead | OpWrite | OpDelete | OpEdit

record FileOperation =
  op_type :: OperationType
  op_path :: string
  op_content :: "string option"
  op_timestamp :: int
  op_success :: bool

text \<open>
  \<open>files\<close> is a JavaScript \<open>Map\<close>: an association list in insertion order with one
  entry per key (\<open>AList.update\<close> replaces in place or appends, as \<open>Map.set\<close> does).
\<close>

record VirtualFileSystem =
  files :: "(string \<times> VirtualFile) list"
  operations :: "FileOperation list"
  workingDirectory :: string
  rootPath :: string

definition VirtualFileSystem_new :: "string \<Rightarrow> VirtualFileSystem" where
  "VirtualFileSystem_new rootDir =
     \<lparr>files = [], operations = [], workingDirectory = rootDir, rootPath = rootDir\<rparr>"

definition normalizePath :: "VirtualFileSystem \<Rightarrow> string \<Rightarrow> string" where
  "normalizePath fs filePath =
     path_normalize
       (if \<not> startsWith filePath ''/'' then path_join [workingDirectory fs, filePath]
        else filePath)"

text \<open>
  Every operation reads the clock (\<open>Date.now()\<close>); the value read is the argument
  \<open>now\<close>. An operation returns its result together with the sandbox after it.
\<close>

record WriteResult =
  wr_success :: bool
  bytesWritten :: nat

definition write_fs :: "VirtualFileSystem \<Rightarrow> int \<Rightarrow> string \<Rightarrow> string \<Rightarrow> WriteResult \<times> VirtualFileSystem" where
  "write_fs fs now filePath content =
     (let normalizedPath = normalizePath fs filePath;
          file = \<lparr>vf_path = normalizedPath, vf_content = content,
                  vf_createdAt =
                    (case map_of (files fs) normalizedPath of
                       None \<Rightarrow> now
                     | Some old \<Rightarrow> if vf_createdAt old \<noteq> 0 then vf_createdAt old else now),
                  vf_modifiedAt = now, vf_permissions = ''rw-r--r--''\<rparr>
      in (\<lparr>wr_success = True, bytesWritten = length content\<rparr>,
          fs\<lparr>files := AList.update normalizedPath file (files fs),
             operations := operations fs @
               [\<lparr>op_type = OpWrite, op_path = normalizedPath, op_content = Some content,
                 op_timestamp = now, op_success = True\<rparr>]\<rparr>))"

definition read :: "VirtualFileSystem \<Rightarrow> int \<Rightarrow> string \<Rightarrow> string option \<times> VirtualFileSystem" where
  "read fs now filePath =
     (let normalizedPath = normalizePath fs filePath;
          file = map_of (files fs) normalizedPath
      in (map_option vf_content file,
          fs\<lparr>operations := operations fs @
               [\<lparr>op_type = OpRead, op_path = normalizedPath, op_content = None,
                 op_timestamp = now, op_success = (file \<noteq> None)\<rparr>]\<rparr>))"

record EditResult =
  er_success :: bool
  er_message :: string

definition edit :: "VirtualFileSystem \<Rightarrow> int \<Rightarrow> string \<Rightarrow> string \<Rightarrow> string \<Rightarrow> EditResult \<times> VirtualFileSystem" where
  "edit fs now filePath oldContent newContent =
     (let normalizedPath = normalizePath fs filePath
      in case map_of (files fs) normalizedPath of
           None \<Rightarrow> (\<lparr>er_success = False, er_message = ''File not found''\<rparr>, fs)
         | Some file \<Rightarrow>
             if \<not> includes_str (vf_content file) oldContent
             then (\<lparr>er_success = False, er_message = ''Old content not found in file''\<rparr>, fs)
             else
               (let updatedContent = js_replace (vf_content file) oldContent newContent
                in (\<lparr>er_success = True, er_message = ''File edited successfully''\<rparr>,
                    fs\<lparr>files := AList.update normalizedPath
                          (file\<lparr>vf_content := updatedContent, vf_modifiedAt := now\<rparr>) (files fs),
                       operations := operations fs @
                         [\<lparr>op_type = OpEdit, op_path = normalizedPath,
                           op_content = Some updatedContent,
                           op_timestamp = now, op_success = True\<rparr>]\<rparr>)))"

text \<open>\<open>delete\<close> returns what \<open>Map.delete\<close> returns: whether the key was present.\<close>

definition delete :: "VirtualFileSystem \<Rightarrow> int \<Rightarrow> string \<Rightarrow> bool \<times> VirtualFileSystem" where
  "delete fs now filePath =
     (let normalizedPath = normalizePath fs filePath;
          success = (map_of (files fs) normalizedPath \<noteq> None)
      in (success,
          fs\<lparr>files := AList.delete normalizedPath (files fs),
             operations := operations fs @
               [\<lparr>op_type = OpDelete, op_path = normalizedPath, op_content = None,
                 op_timestamp = now, op_success = success\<rparr>]\<rparr>))"

definition exists :: "VirtualFileSystem \<Rightarrow> string \<Rightarrow> bool" where
  "exists fs filePath = (map_of (files fs) (normalizePath fs filePath) \<noteq> None)"

text \<open>
  \<open>listDirectory\<close> collects, in a \<open>Set\<close>, the first field of what follows the directory
  prefix (and one more character) in every stored path that starts with the prefix.
\<close>

fun listEntries :: "string \<Rightarrow> string list \<Rightarrow> string list \<Rightarrow> string list" where
  "listEntries normalizedDir entries [] = entries"
| "listEntries normalizedDir entries (filePath # rest) =
     (if startsWith filePath normalizedDir then
        (let relativePath = drop (length normalizedDir + 1) filePath;
             part0 = (case splitOn CHR ''/'' relativePath of [] \<Rightarrow> [] | h # t \<Rightarrow> h)
         in if part0 \<noteq> [] \<and> part0 \<notin> set entries
            then listEntries normalizedDir (entries @ [part0]) rest
            else listEntries normalizedDir entries rest)
      else listEntries normalizedDir entries rest)"

definition listDirectory :: "VirtualFileSystem \<Rightarrow> string \<Rightarrow> string list" where
  "listDirectory fs dirPath = listEntries (normalizePath fs dirPath) [] (map fst (files fs))"

definition getFileOperations :: "VirtualFileSystem \<Rightarrow> FileOperation list" where
  "getFileOperations fs = operations fs"

definition reset :: "VirtualFileSystem \<Rightarrow> VirtualFileSystem" where
  "reset fs = fs\<lparr>files := [], operations := [], workingDirectory := rootPath fs\<rparr>"

section \<open>The data model (\<open>types/index.ts\<close>)\<close>

text \<open>
  Values of type \<open>any\<close> (tool parameters and results) are structured values. Counts are
  natural numbers, clock readings and durations are integers, scores are real numbers.
  A number inside a structured value is given by the characters of its JSON text (digits,
  signs, decimal point and exponent mark), which is all the program reads of it.
\<close>

datatype numchar =
  D0 | D1 | D2 | D3 | D4 | D5 | D6 | D7 | D8 | D9 | NMinus | NPlus | NPoint | NExp

datatype json =
  JNull | JBool bool | JNumber numchar "numchar list" | JString string
  | JArray "json list" | JObject "(string \<times> json) list"

record ToolCall =
  toolName :: string
  parameters :: json
  tc_result :: json
  executionTimeMs :: int
  tc_error :: "string option"

datatype Role = System | User | Assistant

record TokenCount =
  tk_input :: nat
  tk_output :: nat
  tk_thinking :: "nat option"

record Message =
  msg_role :: Role
  msg_content :: string
  msg_thinking :: "string option"
  toolCalls :: "ToolCall list option"
  msg_timestamp :: int
  msg_tokens :: "TokenCount option"

record ModelConfig =
  mc_model :: string
  mc_temperature :: real
  mc_maxTokens :: nat

record ConversationHistory =
  messages :: "Message list"
  totalDurationMs :: int
  modelConfig :: ModelConfig

record CommandExecution =
  cmd_command :: string
  cmd_output :: string
  cmd_exitCode :: int
  cmd_timestamp :: int
  cmd_durationMs :: real

record ErrorEvent =
  ev_type :: string
  ev_message :: string
  ev_stack :: "string option"
  ev_timestamp :: int
  recovered :: bool

record RawMetrics =
  allToolCalls :: "ToolCall list"
  fileOperations :: "FileOperation list"
  commandsExecuted :: "CommandExecution list"
  errorsEncountered :: "ErrorEvent list"
  retryAttempts :: nat

record MetricScores =
  correctness :: real
  speed :: real
  tokenEfficiency :: real
  documentation :: real
  codeQuality :: real
  security :: real
  instructionAdherence :: real
  consistency :: real
  errorRecovery :: real

record Test =
  test_id :: string
  test_prompt :: string
  test_category :: string
  expectedBehavior :: "string option"
  evaluationCriteria :: "(string \<times> string) list option"
  test_timeout :: "int option"

record TestResult =
  testRunId :: int
  testId :: string
  prompt :: string
  response :: string
  tokensInput :: nat
  tokensOutput :: nat
  tokensThinking :: "nat option"
  responseTimeMs :: int
  scores :: MetricScores
  conversation :: ConversationHistory
  metricsRaw :: RawMetrics

text \<open>A thrown \<open>Error\<close> object: its \<open>name\<close> and its \<open>message\<close>.\<close>

datatype JsError = JsError (err_name: string) (err_message: string)

section \<open>The evaluators\<close>

subsection \<open>\<open>BaseEvaluator\<close>\<close>

record BaseEvaluator =
  metricName :: string
  description :: string
  evaluate :: "Test \<Rightarrow> TestResult \<Rightarrow> ConversationHistory \<Rightarrow> RawMetrics \<Rightarrow> JsError + real"

definition normalizeScore :: "real \<Rightarrow> real" where
  "normalizeScore v = min 10 (max 0 v)"

subsection \<open>Text helpers of the correctness evaluator\<close>

text \<open>\<open>toLowerCase\<close> on the ASCII letters; every other character is left as it is.\<close>

definition toLowerChar :: "char \<Rightarrow> char" where
  "toLowerChar c =
     (case map_of (zip ''ABCDEFGHIJKLMNOPQRSTUVWXYZ'' ''abcdefghijklmnopqrstuvwxyz'') c of
        None \<Rightarrow> c | Some l \<Rightarrow> l)"

definition toLowerCase :: "string \<Rightarrow> string" where
  "toLowerCase s = map toLowerChar s"

text \<open>The class \<open>\w\<close> of a regular expression: letters, digits and the underscore.\<close>

definition isWordChar :: "char \<Rightarrow> bool" where
  "isWordChar c \<longleftrightarrow>
     c \<in> set ''abcdefghijklmnopqrstuvwxyzABCDEFGHIJKLMNOPQRSTUVWXYZ0123456789_''"

text \<open>
  \<open>s.split(/\W+/)\<close>: the fields between maximal runs of non-word characters. \<open>cur\<close> is the
  field being read (reversed), \<open>inSep\<close> tells that the last character was a separator.
\<close>

fun splitNonWord :: "string \<Rightarrow> bool \<Rightarrow> string \<Rightarrow> string list" where
  "splitNonWord cur inSep [] = [rev cur]"
| "splitNonWord cur inSep (c # cs) =
     (if isWordChar c then splitNonWord (c # cur) False cs
      else if inSep then splitNonWord cur True cs
      else rev cur # splitNonWord [] True cs)"

definition extractKeywords :: "string \<Rightarrow> string list" where
  "extractKeywords text = filter (\<lambda>word. length word > 3) (splitNonWord [] False (toLowerCase text))"

definition calculateKeywordMatch :: "string list \<Rightarrow> string list \<Rightarrow> real" where
  "calculateKeywordMatch expected actual =
     (if length expected = 0 then 1
      else real (length (filter (\<lambda>keyword. keyword \<in> set actual) expected)) / real (length expected))"

subsection \<open>\<open>CorrectnessEvaluator\<close>\<close>

definition CorrectnessEvaluator_evaluate ::
  "Test \<Rightarrow> TestResult \<Rightarrow> ConversationHistory \<Rightarrow> RawMetrics \<Rightarrow> real" where
  "CorrectnessEvaluator_evaluate test result conv metrics =
     (let score0 = 10;
          score1 =
            (if length (errorsEncountered metrics) > 0 then
               (let unrecoveredErrors = filter (\<lambda>e. \<not> recovered e) (errorsEncountered metrics)
                in score0 - real (length unrecoveredErrors) * 2
                     - real (length (errorsEncountered metrics) - length unrecoveredErrors) * 0.5)
             else score0);
          score2 =
            (if retryAttempts metrics > 0 then score1 - real (retryAttempts metrics) * 0.5
             else score1);
          score3 =
            (if response result = [] \<or> includes_str (response result) ''Test failed:'' then 0
             else score2);
          score4 =
            (case expectedBehavior test of
               None \<Rightarrow> score3
             | Some expected \<Rightarrow>
                 if expected = [] then score3
                 else
                   (let keywords = extractKeywords expected;
                        responseKeywords = extractKeywords (response result);
                        matchRate = calculateKeywordMatch keywords responseKeywords
                    in min score3 (matchRate * 10)))
      in normalizeScore score4)"

definition CorrectnessEvaluator :: BaseEvaluator where
  "CorrectnessEvaluator =
     \<lparr>metricName = ''correctness'',
      description = ''Evaluates if the output correctly solves the problem'',
      evaluate = (\<lambda>test result conv metrics. Inr (CorrectnessEvaluator_evaluate test result conv metrics))\<rparr>"

subsection \<open>\<open>SpeedEvaluator\<close>\<close>

definition SpeedEvaluator_evaluate ::
  "Test \<Rightarrow> TestResult \<Rightarrow> ConversationHistory \<Rightarrow> RawMetrics \<Rightarrow> real" where
  "SpeedEvaluator_evaluate test result conv metrics =
     (let responseTime = responseTimeMs result
      in if responseTime \<le> 2000 then 10
         else if responseTime \<le> 5000 then 8
         else if responseTime \<le> 10000 then 6
         else if responseTime \<le> 20000 then 4
         else
           (let overSlowBy = responseTime - 20000;
                penalty = overSlowBy div 10000
            in normalizeScore (3 - real_of_int penalty)))"

definition SpeedEvaluator :: BaseEvaluator where
  "SpeedEvaluator =
     \<lparr>metricName = ''speed'',
      description = ''Evaluates response time and execution efficiency'',
      evaluate = (\<lambda>test result conv metrics. Inr (SpeedEvaluator_evaluate test result conv metrics))\<rparr>"

subsection \<open>\<open>TokenEfficiencyEvaluator\<close>\<close>

text \<open>
  The signature of a tool call. \<open>JSON.stringify\<close> is the runtime's serializer; the
  functions that call it take it as the argument \<open>stringify\<close>.
\<close>

definition signature :: "(json \<Rightarrow> string) \<Rightarrow> ToolCall \<Rightarrow> string" where
  "signature stringify call = toolName call @ '':'' @ stringify (parameters call)"

definition duplicateStep ::
  "(json \<Rightarrow> string) \<Rightarrow> (string \<rightharpoonup> nat) \<times> nat \<Rightarrow> ToolCall \<Rightarrow> (string \<rightharpoonup> nat) \<times> nat" where
  "duplicateStep stringify st call =
     (let toolCallSignatures = fst st; duplicates = snd st;
          sig = signature stringify call;
          count = (case toolCallSignatures sig of None \<Rightarrow> 0 | Some n \<Rightarrow> n) + 1
      in (toolCallSignatures(sig \<mapsto> count), if count > 1 then duplicates + 1 else duplicates))"

definition countDuplicateToolCalls :: "(json \<Rightarrow> string) \<Rightarrow> ConversationHistory \<Rightarrow> nat" where
  "countDuplicateToolCalls stringify conv =
     snd (foldl (\<lambda>st message.
                   case toolCalls message of
                     None \<Rightarrow> st
                   | Some calls \<Rightarrow> foldl (duplicateStep stringify) st calls)
            (Map.empty, 0) (messages conv))"

text \<open>
  The ratio \<open>outputTokens / inputTokens\<close> is a floating-point division: with no input
  tokens it is \<open>NaN\<close> (no output either; every comparison fails and the score stays 10)
  or \<open>Infinity\<close> (the verbose band with the largest deduction, 3).
\<close>

definition ratioScore :: "nat \<Rightarrow> nat \<Rightarrow> real" where
  "ratioScore inputTokens outputTokens =
     (if inputTokens = 0 then (if outputTokens = 0 then 10 else 5 - 3)
      else
        (let outputRatio = real outputTokens / real inputTokens
         in if outputRatio < 0.5 then 6
            else if outputRatio > 5 then 5 - min 3 (real_of_int \<lfloor>(outputRatio - 5) / 2\<rfloor>)
            else if outputRatio > 3 then 8
            else 10))"

definition TokenEfficiencyEvaluator_evaluate ::
  "(json \<Rightarrow> string) \<Rightarrow> Test \<Rightarrow> TestResult \<Rightarrow> ConversationHistory \<Rightarrow> RawMetrics \<Rightarrow> real" where
  "TokenEfficiencyEvaluator_evaluate stringify test result conv metrics =
     (let inputTokens = tokensInput result;
          outputTokens = tokensOutput result;
          thinkingTokens = (case tokensThinking result of None \<Rightarrow> 0 | Some n \<Rightarrow> n);
          totalTokens = inputTokens + outputTokens + thinkingTokens;
          totalScore =
            (if totalTokens > 10000 then 5
             else if totalTokens > 5000 then 7
             else if totalTokens > 3000 then 9
             else 10);
          duplicateTools = countDuplicateToolCalls stringify conv;
          wasteScore = (if duplicateTools > 0 then 10 - real duplicateTools * 2 else 10);
          finalScore = (ratioScore inputTokens outputTokens + totalScore + wasteScore) / 3
      in normalizeScore finalScore)"

definition TokenEfficiencyEvaluator :: "(json \<Rightarrow> string) \<Rightarrow> BaseEvaluator" where
  "TokenEfficiencyEvaluator stringify =
     \<lparr>metricName = ''tokenEfficiency'',
      description = ''Evaluates token usage optimization'',
      evaluate = (\<lambda>test result conv metrics.
                    Inr (TokenEfficiencyEvaluator_evaluate stringify test result conv metrics))\<rparr>"

subsection \<open>\<open>CodeQualityEvaluator\<close>\<close>

fun countEditsWithoutRead :: "string list \<Rightarrow> FileOperation list \<Rightarrow> nat" where
  "countEditsWithoutRead readFiles [] = 0"
| "countEditsWithoutRead readFiles (op # ops) =
     (if op_type op = OpRead then countEditsWithoutRead (op_path op # readFiles) ops
      else if op_type op = OpEdit \<or> op_type op = OpWrite then
        (if op_path op \<notin> set readFiles \<and> op_type op = OpEdit
         then 1 + countEditsWithoutRead readFiles ops
         else countEditsWithoutRead readFiles ops)
      else countEditsWithoutRead readFiles ops)"

definition checkErrorHandling :: "ConversationHistory \<Rightarrow> bool" where
  "checkErrorHandling conv =
     list_ex (\<lambda>msg. msg_role msg = Assistant \<and>
                list_ex (\<lambda>keyword. includes_str (toLowerCase (msg_content msg)) keyword)
                  [''try'', ''catch'', ''error'', ''exception'', ''handle'', ''validate''])
       (messages conv)"

definition checkFileStructure :: "FileOperation list \<Rightarrow> bool" where
  "checkFileStructure fileOps =
     list_ex (\<lambda>path. includes_str path ''/'' \<and> length (splitOn CHR ''/'' path) > 2)
       (map op_path fileOps)"

fun countConsistentSequences :: "FileOperation list \<Rightarrow> nat" where
  "countConsistentSequences (prev # cur # rest) =
     (if op_path cur = op_path prev \<or> \<bar>op_timestamp cur - op_timestamp prev\<bar> < 5000
      then 1 else 0) + countConsistentSequences (cur # rest)"
| "countConsistentSequences ops = 0"

definition checkOperationConsistency :: "RawMetrics \<Rightarrow> real" where
  "checkOperationConsistency metrics =
     (let ops = sort_key op_timestamp (fileOperations metrics)
      in if length ops < 2 then 1
         else
           (let consistentSequences = countConsistentSequences ops;
                totalSequences = length ops - 1
            in if totalSequences > 0 then real consistentSequences / real totalSequences else 1))"

definition CodeQualityEvaluator_evaluate ::
  "Test \<Rightarrow> TestResult \<Rightarrow> ConversationHistory \<Rightarrow> RawMetrics \<Rightarrow> real" where
  "CodeQualityEvaluator_evaluate test result conv metrics =
     (let score0 = 8;
          fileOps = fileOperations metrics;
          editsWithoutRead = countEditsWithoutRead [] fileOps;
          score1 = (if editsWithoutRead > 0 then score0 - real editsWithoutRead * 1.5 else score0);
          hasErrorHandling = checkErrorHandling conv;
          score2 =
            (if \<not> hasErrorHandling \<and> length (errorsEncountered metrics) > 0 then score1 - 2
             else score1);
          hasGoodStructure = checkFileStructure fileOps;
          score3 = (if hasGoodStructure then score2 + 1 else score2);
          consistencyRate = checkOperationConsistency metrics;
          score4 = score3 + (consistencyRate * 2 - 1)
      in normalizeScore score4)"

definition CodeQualityEvaluator :: BaseEvaluator where
  "CodeQualityEvaluator =
     \<lparr>metricName = ''codeQuality'',
      description = ''Evaluates code structure, readability, and best practices'',
      evaluate = (\<lambda>test result conv metrics. Inr (CodeQualityEvaluator_evaluate test result conv metrics))\<rparr>"

subsection \<open>\<open>PlaceholderEvaluator\<close>\<close>

definition PlaceholderEvaluator_evaluate ::
  "Test \<Rightarrow> TestResult \<Rightarrow> ConversationHistory \<Rightarrow> RawMetrics \<Rightarrow> real" where
  "PlaceholderEvaluator_evaluate test result conv metrics =
     (let score0 = 7;
          score1 = (if length (errorsEncountered metrics) > 0 then score0 - 1 else score0);
          score2 =
            (if length (response result) < 50 then score1 - 2
             else if length (response result) > 500 then score1 + 1
             else score1)
      in normalizeScore score2)"

definition PlaceholderEvaluator :: "string \<Rightarrow> string \<Rightarrow> BaseEvaluator" where
  "PlaceholderEvaluator name desc =
     \<lparr>metricName = name, description = desc,
      evaluate = (\<lambda>test result conv metrics. Inr (PlaceholderEvaluator_evaluate test result conv metrics))\<rparr>"

subsection \<open>\<open>EvaluatorManager\<close>\<close>

text \<open>
  The registry is a \<open>Map\<close> from metric name to evaluator: an association list in
  insertion order, \<open>AList.update\<close> being \<open>Map.set\<close>.
\<close>

record EvaluatorManager =
  evaluators :: "(string \<times> BaseEvaluator) list"

definition registerEvaluator :: "EvaluatorManager \<Rightarrow> BaseEvaluator \<Rightarrow> EvaluatorManager" where
  "registerEvaluator m evaluator =
     m\<lparr>evaluators := AList.update (metricName evaluator) evaluator (evaluators m)\<rparr>"

definition defaultEvaluators :: "(json \<Rightarrow> string) \<Rightarrow> BaseEvaluator list" where
  "defaultEvaluators stringify =
     [CorrectnessEvaluator, SpeedEvaluator, TokenEfficiencyEvaluator stringify, CodeQualityEvaluator,
      PlaceholderEvaluator ''documentation'' ''Quality of explanations and comments'',
      PlaceholderEvaluator ''security'' ''Security best practices'',
      PlaceholderEvaluator ''instructionAdherence'' ''Following CLAUDE.md instructions'',
      PlaceholderEvaluator ''consistency'' ''Consistent behavior across similar prompts'',
      PlaceholderEvaluator ''errorRecovery'' ''Ability to handle and recover from errors'']"

definition registerDefaultEvaluators :: "(json \<Rightarrow> string) \<Rightarrow> EvaluatorManager \<Rightarrow> EvaluatorManager" where
  "registerDefaultEvaluators stringify m = foldl registerEvaluator m (defaultEvaluators stringify)"

definition EvaluatorManager_new :: "(json \<Rightarrow> string) \<Rightarrow> EvaluatorManager" where
  "EvaluatorManager_new stringify = registerDefaultEvaluators stringify \<lparr>evaluators = []\<rparr>"

text \<open>
  One round of the loop of \<open>evaluateAll\<close>: the unit's score, or 5 when the unit throws.
\<close>

definition scoreOf :: "BaseEvaluator \<Rightarrow> Test \<Rightarrow> TestResult \<Rightarrow> real" where
  "scoreOf evaluator test result =
     (case evaluate evaluator test result (conversation result) (metricsRaw result) of
        Inr v \<Rightarrow> v
      | Inl err \<Rightarrow> 5)"

text \<open>
  The result \<open>scores\<close> is a plain object, created as \<open>{}\<close>: the list of its own
  properties in the order of their creation (enumeration puts integer-like names first;
  none of the default names is one). The assignment \<open>scores[name] = value\<close> of a number
  creates the property or replaces its value, except for the name \<open>__proto__\<close>, which
  is the accessor inherited from \<open>Object.prototype\<close>: its setter ignores a number and
  no property is created.
\<close>

definition setProperty :: "string \<Rightarrow> real \<Rightarrow> (string \<times> real) list \<Rightarrow> (string \<times> real) list" where
  "setProperty name v obj = (if name = ''__proto__'' then obj else AList.update name v obj)"

definition evaluateAll :: "EvaluatorManager \<Rightarrow> Test \<Rightarrow> TestResult \<Rightarrow> (string \<times> real) list" where
  "evaluateAll m test result =
     foldl (\<lambda>scores entry. setProperty (fst entry) (scoreOf (snd entry) test result) scores)
       [] (evaluators m)"

section \<open>Metrics extraction (\<open>TestRunner\<close>)\<close>

text \<open>
  \<open>extractErrors\<close>: one \<open>tool_error\<close> event per tool call that carries a non-empty
  \<open>error\<close>, stamped with its message's time.
\<close>

definition extractErrors :: "ConversationHistory \<Rightarrow> ErrorEvent list" where
  "extractErrors conv =
     concat (map (\<lambda>msg.
        case toolCalls msg of
          None \<Rightarrow> []
        | Some calls \<Rightarrow>
            concat (map (\<lambda>call.
              case tc_error call of
                None \<Rightarrow> []
              | Some err \<Rightarrow>
                  if err = [] then []
                  else [\<lparr>ev_type = ''tool_error'', ev_message = err, ev_stack = None,
                         ev_timestamp = msg_timestamp msg, recovered = False\<rparr>]) calls))
       (messages conv))"

text \<open>
  \<open>countRetries\<close>: the state of the two nested loops is the counter and the last tool call
  seen (\<open>None\<close> for \<open>null\<close>), carried across messages.
\<close>

definition retryStep ::
  "(json \<Rightarrow> string) \<Rightarrow> nat \<times> ToolCall option \<Rightarrow> ToolCall \<Rightarrow> nat \<times> ToolCall option" where
  "retryStep stringify st call =
     (let retries = fst st; lastToolCall = snd st
      in ((case lastToolCall of
             None \<Rightarrow> retries
           | Some lastCall \<Rightarrow>
               if toolName lastCall = toolName call \<and>
                  stringify (parameters lastCall) = stringify (parameters call)
               then retries + 1 else retries),
          Some call))"

definition countRetries :: "(json \<Rightarrow> string) \<Rightarrow> ConversationHistory \<Rightarrow> nat" where
  "countRetries stringify conv =
     fst (foldl (\<lambda>st msg.
                   case toolCalls msg of
                     None \<Rightarrow> st
                   | Some calls \<Rightarrow> foldl (retryStep stringify) st calls)
            (0, None) (messages conv))"

subsection \<open>The two counts in the words of the specification\<close>

text \<open>
  The transcript's tool calls in order, message boundaries forgotten. What the
  specification compares of a call is the pair of its tool name and its serialized
  parameters, \<open>callKey\<close>; two calls are identical when their pairs are equal.
  \<open>adjacentRepeats\<close> counts the calls identical to the call immediately before them,
  \<open>repeatsBeyondFirst\<close> counts, for every pair that occurs, its occurrences beyond the
  first. Neither mentions the text \<open>signature\<close> that the program builds from the pair.
\<close>

definition transcriptCalls :: "ConversationHistory \<Rightarrow> ToolCall list" where
  "transcriptCalls conv =
     concat (map (\<lambda>msg. case toolCalls msg of None \<Rightarrow> [] | Some calls \<Rightarrow> calls) (messages conv))"

definition callKey :: "(json \<Rightarrow> string) \<Rightarrow> ToolCall \<Rightarrow> string \<times> string" where
  "callKey stringify call = (toolName call, stringify (parameters call))"

definition identicalCall :: "(json \<Rightarrow> string) \<Rightarrow> ToolCall \<Rightarrow> ToolCall \<Rightarrow> bool" where
  "identicalCall stringify a b \<longleftrightarrow> callKey stringify a = callKey stringify b"

fun adjacentRepeats :: "(json \<Rightarrow> string) \<Rightarrow> ToolCall list \<Rightarrow> nat" where
  "adjacentRepeats stringify (a # b # rest) =
     (if identicalCall stringify a b then 1 else 0) + adjacentRepeats stringify (b # rest)"
| "adjacentRepeats stringify calls = 0"

definition repeatsBeyondFirst :: "(json \<Rightarrow> string) \<Rightarrow> ToolCall list \<Rightarrow> nat" where
  "repeatsBeyondFirst stringify calls =
     (let keys = map (callKey stringify) calls
      in sum_list (map (\<lambda>key. count_list keys key - 1) (remdups keys)))"

section \<open>The subprocess runner (\<open>ClaudeCodeRunner\<close>)\<close>

record ClaudeCodeRunnerConfig =
  cfg_workspaceDir :: "string option"
  cfg_timeout :: "int option"
  cfg_useSkipPermissions :: "bool option"

record ClaudeCodeRunner =
  workspaceDir :: string
  timeout :: int
  useSkipPermissions :: bool

definition ClaudeCodeRunner_new :: "ClaudeCodeRunnerConfig \<Rightarrow> ClaudeCodeRunner" where
  "ClaudeCodeRunner_new config =
     \<lparr>workspaceDir =
        (case cfg_workspaceDir config of
           None \<Rightarrow> ''./test-workspaces''
         | Some d \<Rightarrow> if d \<noteq> [] then d else ''./test-workspaces''),
      timeout =
        (case cfg_timeout config of
           None \<Rightarrow> 120000
         | Some t \<Rightarrow> if t \<noteq> 0 then t else 120000),
      useSkipPermissions = (case cfg_useSkipPermissions config of None \<Rightarrow> True | Some b \<Rightarrow> b)\<rparr>"

text \<open>The timeout a test runs under: \<open>test.timeout || this.config.timeout\<close>.\<close>

definition testTimeout :: "ClaudeCodeRunner \<Rightarrow> Test \<Rightarrow> int" where
  "testTimeout runner test =
     (case test_timeout test of
        None \<Rightarrow> timeout runner
      | Some t \<Rightarrow> if t \<noteq> 0 then t else timeout runner)"

record ExecutionResult =
  ex_output :: string
  ex_exitCode :: int
  ex_duration :: int
  ex_error :: "string option"

text \<open>
  \<open>runClaudeCode\<close> returns a promise that the first of three callbacks resolves: the
  timer armed with the timeout, the process's \<open>close\<close> event, or its \<open>error\<close> event.
  Which one comes first, with what was captured from the process by then and the time
  elapsed since the start, is the environment's choice, given as a \<open>ProcessEvent\<close>. The
  promise is rejected only when \<open>spawn\<close> itself throws, before any callback is set up.
\<close>

datatype ProcessEvent =
  TimerFired string int
    \<comment> \<open>captured standard output, elapsed time\<close>
| Closed string string "int option" int
    \<comment> \<open>standard output, standard error, exit code (or \<open>null\<close>), elapsed time\<close>
| SpawnError string int
    \<comment> \<open>the error's message, elapsed time\<close>
| SpawnThrew JsError
    \<comment> \<open>the exception thrown by \<open>spawn\<close>\<close>

fun runClaudeCode :: "ProcessEvent \<Rightarrow> JsError + ExecutionResult" where
  "runClaudeCode (TimerFired out elapsed) =
     Inr \<lparr>ex_output = out @ [CHR 0x0A] @ ''[TIMEOUT]'', ex_exitCode = 124,
          ex_duration = elapsed, ex_error = Some ''Process timed out''\<rparr>"
| "runClaudeCode (Closed out errorOutput code elapsed) =
     Inr \<lparr>ex_output = (if out \<noteq> [] then out else errorOutput),
          ex_exitCode = (case code of None \<Rightarrow> 0 | Some c \<Rightarrow> c),
          ex_duration = elapsed,
          ex_error = (if errorOutput \<noteq> [] then Some errorOutput else None)\<rparr>"
| "runClaudeCode (SpawnError msg elapsed) =
     Inr \<lparr>ex_output = ''Error executing claude: '' @ msg, ex_exitCode = 1,
          ex_duration = elapsed, ex_error = Some msg\<rparr>"
| "runClaudeCode (SpawnThrew err) = Inl err"

text \<open>
  \<open>collectMetrics\<close>: \<open>workspaceFiles\<close> is what \<open>listFilesRecursively\<close> found in the workspace
  (it swallows every error of its own), \<open>now\<close> the clock reading. An absent \<open>error\<close>
  and an empty one are both falsy, so both read as the empty \<open>errorMessage\<close>.
\<close>

definition collectMetrics :: "string list \<Rightarrow> int \<Rightarrow> ExecutionResult \<Rightarrow> RawMetrics" where
  "collectMetrics workspaceFiles now executionResult =
     (let fileOps =
            map (\<lambda>file. \<lparr>op_type = OpWrite, op_path = file, op_content = None,
                          op_timestamp = now, op_success = True\<rparr>)
              (filter (\<lambda>file. \<not> endsWith file ''CLAUDE.md'') workspaceFiles);
          errorMessage = (case ex_error executionResult of None \<Rightarrow> [] | Some e \<Rightarrow> e);
          errors =
            (if errorMessage \<noteq> [] \<or> ex_exitCode executionResult \<noteq> 0 then
               [\<lparr>ev_type = ''execution_error'',
                 ev_message = (if errorMessage \<noteq> [] then errorMessage
                               else ''Process exited with non-zero code''),
                 ev_stack = None, ev_timestamp = now, recovered = False\<rparr>]
             else [])
      in \<lparr>allToolCalls = [], fileOperations = fileOps, commandsExecuted = [],
          errorsEncountered = errors, retryAttempts = 0\<rparr>)"

definition estimateTokens :: "string \<Rightarrow> nat" where
  "estimateTokens text = (length text + 3) div 4"

text \<open>
  What one run of \<open>executeTest\<close> meets outside the program: the clock at its start, whether
  creating the workspace directory or writing \<open>CLAUDE.md\<close> into it throws, how the
  subprocess ends, the files found afterwards, and the clock readings of metric collection
  and of a synthesized failure.
\<close>

record ExecEnv =
  env_startTime :: int
  env_mkdirError :: "JsError option"
  env_writeFileError :: "JsError option"
  env_process :: ProcessEvent
  env_files :: "string list"
  env_metricsTime :: int
  env_failureTime :: int

text \<open>
  \<open>executeTest\<close>: an exception of the workspace set-up or of \<open>runClaudeCode\<close> leaves
  through the \<open>finally\<close> block (whose clean-up swallows its own errors); otherwise the
  result is assembled from the subprocess's outcome with the fixed preliminary scores.
\<close>

definition executeTest ::
  "ClaudeCodeRunner \<Rightarrow> string \<Rightarrow> Test \<Rightarrow> int \<Rightarrow> ExecEnv \<Rightarrow> JsError + TestResult" where
  "executeTest runner claudeMdContent test runId env =
     (case env_mkdirError env of
        Some err \<Rightarrow> Inl err
      | None \<Rightarrow>
         (case env_writeFileError env of
            Some err \<Rightarrow> Inl err
          | None \<Rightarrow>
             (case runClaudeCode (env_process env) of
                Inl err \<Rightarrow> Inl err
              | Inr executionResult \<Rightarrow>
                 (let startTime = env_startTime env;
                      rawMetrics =
                        collectMetrics (env_files env) (env_metricsTime env) executionResult;
                      basicScores =
                        \<lparr>correctness = 7,
                         speed = (if ex_duration executionResult < 30000 then 9 else 6),
                         tokenEfficiency = 7, documentation = 7, codeQuality = 7, security = 7,
                         instructionAdherence = 7, consistency = 7,
                         errorRecovery = (if ex_exitCode executionResult = 0 then 8 else 4)\<rparr>
                  in Inr
                    \<lparr>testRunId = runId, testId = test_id test, prompt = test_prompt test,
                     response = ex_output executionResult,
                     tokensInput = estimateTokens (test_prompt test @ claudeMdContent),
                     tokensOutput = estimateTokens (ex_output executionResult),
                     tokensThinking = None,
                     responseTimeMs = ex_duration executionResult,
                     scores = basicScores,
                     conversation =
                       \<lparr>messages =
                          [\<lparr>msg_role = User, msg_content = test_prompt test, msg_thinking = None,
                            toolCalls = None, msg_timestamp = startTime,
                            msg_tokens = Some \<lparr>tk_input = estimateTokens (test_prompt test),
                                               tk_output = 0, tk_thinking = None\<rparr>\<rparr>,
                           \<lparr>msg_role = Assistant, msg_content = ex_output executionResult,
                            msg_thinking = None, toolCalls = None,
                            msg_timestamp = startTime + ex_duration executionResult,
                            msg_tokens =
                              Some \<lparr>tk_input = 0,
                                    tk_output = estimateTokens (ex_output executionResult),
                                    tk_thinking = None\<rparr>\<rparr>],
                        totalDurationMs = ex_duration executionResult,
                        modelConfig =
                          \<lparr>mc_model = ''claude-code'', mc_temperature = 0, mc_maxTokens = 0\<rparr>\<rparr>,
                     metricsRaw = rawMetrics\<rparr>))))"

section \<open>The suite runner (\<open>TestRunner\<close>)\<close>

record ClaudeFile =
  cf_id :: "int option"
  cf_name :: string
  cf_content :: string
  cf_hash :: string
  cf_createdAt :: int
  cf_description :: "string option"

record TestSuite =
  suite_id :: string
  suite_version :: string
  suite_name :: string
  suite_description :: "string option"
  tests :: "Test list"

text \<open>The text \<open>error.message || error\<close> put after the failure marker.\<close>

definition errorText :: "JsError \<Rightarrow> string" where
  "errorText err = (if err_message err \<noteq> [] then err_message err else err_name err)"

definition zeroScores :: MetricScores where
  "zeroScores =
     \<lparr>correctness = 0, speed = 0, tokenEfficiency = 0, documentation = 0, codeQuality = 0,
      security = 0, instructionAdherence = 0, consistency = 0, errorRecovery = 0\<rparr>"

definition createFailedResult :: "Test \<Rightarrow> int \<Rightarrow> JsError \<Rightarrow> int \<Rightarrow> TestResult" where
  "createFailedResult test runId err now =
     \<lparr>testRunId = runId, testId = test_id test, prompt = test_prompt test,
      response = ''Test failed: '' @ errorText err,
      tokensInput = 0, tokensOutput = 0, tokensThinking = None, responseTimeMs = 0,
      scores = zeroScores,
      conversation =
        \<lparr>messages = [], totalDurationMs = 0,
         modelConfig = \<lparr>mc_model = [], mc_temperature = 0, mc_maxTokens = 0\<rparr>\<rparr>,
      metricsRaw =
        \<lparr>allToolCalls = [], fileOperations = [], commandsExecuted = [],
         errorsEncountered =
           [\<lparr>ev_type = ''test_failure'', ev_message = errorText err, ev_stack = None,
             ev_timestamp = now, recovered = False\<rparr>],
         retryAttempts = 0\<rparr>\<rparr>"

text \<open>
  The optional argument \<open>callbacks\<close> holds up to three observers supplied by the caller.
  An observer is given by what a call of it does: \<open>None\<close> when it returns normally,
  \<open>Some err\<close> when it throws \<open>err\<close>. A call \<open>callbacks?.onTestStart?.(test)\<close> does
  nothing when \<open>callbacks\<close> or the observer is absent.
\<close>

record Callbacks =
  onTestStart :: "(Test \<Rightarrow> JsError option) option"
  onTestComplete :: "(Test \<Rightarrow> TestResult \<Rightarrow> JsError option) option"
  onProgress :: "(nat \<Rightarrow> nat \<Rightarrow> JsError option) option"

definition notifyTestStart :: "Callbacks option \<Rightarrow> Test \<Rightarrow> JsError option" where
  "notifyTestStart callbacks test =
     (case callbacks of
        None \<Rightarrow> None
      | Some cb \<Rightarrow> (case onTestStart cb of None \<Rightarrow> None | Some observer \<Rightarrow> observer test))"

definition notifyTestComplete :: "Callbacks option \<Rightarrow> Test \<Rightarrow> TestResult \<Rightarrow> JsError option" where
  "notifyTestComplete callbacks test result =
     (case callbacks of
        None \<Rightarrow> None
      | Some cb \<Rightarrow>
          (case onTestComplete cb of None \<Rightarrow> None | Some observer \<Rightarrow> observer test result))"

definition notifyProgress :: "Callbacks option \<Rightarrow> nat \<Rightarrow> nat \<Rightarrow> JsError option" where
  "notifyProgress callbacks completed totalTests =
     (case callbacks of
        None \<Rightarrow> None
      | Some cb \<Rightarrow>
          (case onProgress cb of None \<Rightarrow> None | Some observer \<Rightarrow> observer completed totalTests))"

text \<open>
  The \<open>try\<close>/\<open>catch\<close> statement of the loop body, from the results so far to the results
  after it, or to the exception that leaves it. In the \<open>try\<close> block the result of
  \<open>executeTest\<close> is pushed and then \<open>onTestComplete\<close> is called, so an exception of the
  observer reaches the \<open>catch\<close> block like one of \<open>executeTest\<close>, with the result already
  pushed. The \<open>catch\<close> block pushes the synthesized failed result and calls
  \<open>onTestComplete\<close> again; an exception of that call leaves the statement.
\<close>

definition catchBlock ::
  "int \<Rightarrow> Callbacks option \<Rightarrow> ExecEnv \<Rightarrow> Test \<Rightarrow> TestResult list \<Rightarrow> JsError \<Rightarrow>
   JsError + TestResult list" where
  "catchBlock runId callbacks e test results err =
     (let failedResult = createFailedResult test runId err (env_failureTime e)
      in case notifyTestComplete callbacks test failedResult of
           Some thrown \<Rightarrow> Inl thrown
         | None \<Rightarrow> Inr (results @ [failedResult]))"

definition tryTest ::
  "ClaudeCodeRunner \<Rightarrow> string \<Rightarrow> int \<Rightarrow> Callbacks option \<Rightarrow> ExecEnv \<Rightarrow> Test \<Rightarrow>
   TestResult list \<Rightarrow> JsError + TestResult list" where
  "tryTest runner content runId callbacks e test results =
     (case executeTest runner content test runId e of
        Inl err \<Rightarrow> catchBlock runId callbacks e test results err
      | Inr result \<Rightarrow>
          (case notifyTestComplete callbacks test result of
             None \<Rightarrow> Inr (results @ [result])
           | Some err \<Rightarrow> catchBlock runId callbacks e test (results @ [result]) err))"

text \<open>
  The loop of \<open>runTestSuite\<close> over the remaining tests; \<open>env completed\<close> is the
  environment the test at position \<open>completed\<close> runs in. \<open>onTestStart\<close> and \<open>onProgress\<close>
  are called outside the \<open>try\<close> statement: an exception of either leaves the loop, and
  \<open>Inl\<close> is the rejection of the promise \<open>runTestSuite\<close> returns.
\<close>

fun runTests ::
  "ClaudeCodeRunner \<Rightarrow> string \<Rightarrow> int \<Rightarrow> (nat \<Rightarrow> ExecEnv) \<Rightarrow> Callbacks option \<Rightarrow> nat \<Rightarrow>
   TestResult list \<times> nat \<Rightarrow> Test list \<Rightarrow> JsError + TestResult list" where
  "runTests runner content runId env callbacks totalTests (results, completed) [] = Inr results"
| "runTests runner content runId env callbacks totalTests (results, completed) (test # rest) =
     (case notifyTestStart callbacks test of
        Some err \<Rightarrow> Inl err
      | None \<Rightarrow>
          (case tryTest runner content runId callbacks (env completed) test results of
             Inl err \<Rightarrow> Inl err
           | Inr results' \<Rightarrow>
               (case notifyProgress callbacks (completed + 1) totalTests of
                  Some err \<Rightarrow> Inl err
                | None \<Rightarrow>
                    runTests runner content runId env callbacks totalTests
                      (results', completed + 1) rest)))"

text \<open>\<open>runTestSuite\<close>, as far as its \<open>results\<close> list goes.\<close>

definition runTestSuite ::
  "ClaudeCodeRunner \<Rightarrow> ClaudeFile \<Rightarrow> TestSuite \<Rightarrow> int \<Rightarrow> (nat \<Rightarrow> ExecEnv) \<Rightarrow> Callbacks option \<Rightarrow>
   JsError + TestResult list" where
  "runTestSuite runner claudeFile testSuite runId env callbacks =
     runTests runner (cf_content claudeFile) runId env callbacks (length (tests testSuite))
       ([], 0) (tests testSuite)"

section \<open>The runtime's serializer \<open>JSON.stringify\<close>\<close>

text \<open>
  \<open>JSON.stringify\<close> belongs to the runtime, not to the repository. It is modelled after
  the language standard: no white space, object members in the order of the properties,
  and strings quoted with the escapes of \<open>QuoteJSONString\<close> (backslash before a quote
  and a backslash, the short escapes for backspace, tab, line feed, form feed and carriage
  return, \<open>\u00XX\<close> for the other characters below \<open>0x20\<close>).
\<close>

fun numcharText :: "numchar \<Rightarrow> char" where
  "numcharText D0 = CHR ''0''"
| "numcharText D1 = CHR ''1''"
| "numcharText D2 = CHR ''2''"
| "numcharText D3 = CHR ''3''"
| "numcharText D4 = CHR ''4''"
| "numcharText D5 = CHR ''5''"
| "numcharText D6 = CHR ''6''"
| "numcharText D7 = CHR ''7''"
| "numcharText D8 = CHR ''8''"
| "numcharText D9 = CHR ''9''"
| "numcharText NMinus = CHR ''-''"
| "numcharText NPlus = CHR ''+''"
| "numcharText NPoint = CHR ''.''"
| "numcharText NExp = CHR ''e''"

definition hexDigit :: "nat \<Rightarrow> char" where
  "hexDigit n = ''0123456789abcdef'' ! n"

definition escapeChar :: "char \<Rightarrow> string" where
  "escapeChar c =
     (if c = CHR 0x22 then [CHR 0x5C, CHR 0x22]
      else if c = CHR 0x5C then [CHR 0x5C, CHR 0x5C]
      else if c = CHR 0x08 then [CHR 0x5C, CHR ''b'']
      else if c = CHR 0x09 then [CHR 0x5C, CHR ''t'']
      else if c = CHR 0x0A then [CHR 0x5C, CHR ''n'']
      else if c = CHR 0x0C then [CHR 0x5C, CHR ''f'']
      else if c = CHR 0x0D then [CHR 0x5C, CHR ''r'']
      else if (of_char c :: nat) < 32 then
        [CHR 0x5C, CHR ''u'', CHR ''0'', CHR ''0'',
         hexDigit (of_char c div 16), hexDigit (of_char c mod 16)]
      else [c])"

definition quoteJSON :: "string \<Rightarrow> string" where
  "quoteJSON s = [CHR 0x22] @ concat (map escapeChar s) @ [CHR 0x22]"

fun JSON_stringify :: "json \<Rightarrow> string" where
  "JSON_stringify JNull = ''null''"
| "JSON_stringify (JBool b) = (if b then ''true'' else ''false'')"
| "JSON_stringify (JNumber c cs) = map numcharText (c # cs)"
| "JSON_stringify (JString s) = quoteJSON s"
| "JSON_stringify (JArray xs) = ''['' @ joinWith '','' (map JSON_stringify xs) @ '']''"
| "JSON_stringify (JObject members) =
     ''{'' @ joinWith '',''
              (map (\<lambda>member. quoteJSON (fst member) @ '':'' @ JSON_stringify (snd member)) members)
       @ ''}''"

subsection \<open>A lexical reading of serialized text\<close>

text \<open>
  To show that a signature \<open>name:text\<close> determines the name and the text, serialized
  text is read character by character, keeping whether the reader is outside a string,
  inside one, or just after a backslash inside one, and how many brackets are open. A
  backslash outside a string does not occur in serialized text; the reader that meets
  one stays \<open>Broken\<close>.
\<close>

datatype lexmode = Outside | Inside | Escaped | Broken

fun lexstep :: "lexmode \<times> int \<Rightarrow> char \<Rightarrow> lexmode \<times> int" where
  "lexstep (Outside, d) c =
     (if c = CHR 0x22 then (Inside, d)
      else if c = CHR 0x5C then (Broken, d)
      else if c = CHR ''{'' \<or> c = CHR ''['' then (Outside, d + 1)
      else if c = CHR ''}'' \<or> c = CHR '']'' then (Outside, d - 1)
      else (Outside, d))"
| "lexstep (Inside, d) c =
     (if c = CHR 0x22 then (Outside, d)
      else if c = CHR 0x5C then (Escaped, d)
      else (Inside, d))"
| "lexstep (Escaped, d) c = (Inside, d)"
| "lexstep (Broken, d) c = (Broken, d)"

definition lex :: "lexmode \<times> int \<Rightarrow> string \<Rightarrow> lexmode \<times> int" where
  "lex st text = foldl lexstep st text"

text \<open>\<open>stays P st text\<close>: \<open>P\<close> holds of the reader after every character of \<open>text\<close>.\<close>

fun stays :: "(lexmode \<times> int \<Rightarrow> bool) \<Rightarrow> lexmode \<times> int \<Rightarrow> string \<Rightarrow> bool" where
  "stays P st [] = True"
| "stays P st (c # cs) = (P (lexstep st c) \<and> stays P (lexstep st c) cs)"

text \<open>
  Text is balanced at depth \<open>d\<close> when the reader that starts outside a string at depth
  \<open>d\<close> ends there and never goes below \<open>d\<close>. Two modes are opposite when, unless one of
  them is \<open>Broken\<close>, one is \<open>Outside\<close> and the other \<open>Inside\<close>.
\<close>

definition balancedText :: "int \<Rightarrow> string \<Rightarrow> bool" where
  "balancedText d text \<longleftrightarrow>
     lex (Outside, d) text = (Outside, d) \<and> stays (\<lambda>st. d \<le> snd st) (Outside, d) text"

definition opposite :: "lexmode \<Rightarrow> lexmode \<Rightarrow> bool" where
  "opposite m f \<longleftrightarrow>
     m = Broken \<or> f = Broken \<or> (m = Outside \<and> f = Inside) \<or> (m = Inside \<and> f = Outside)"

section \<open>The nine default metrics and sample values\<close>

definition defaultMetricNames :: "string list" where
  "defaultMetricNames =
     [''correctness'', ''speed'', ''tokenEfficiency'', ''codeQuality'', ''documentation'',
      ''security'', ''instructionAdherence'', ''consistency'', ''errorRecovery'']"

text \<open>
  Concrete inputs on which the theorems below are evaluated. \<open>sampleStringify\<close> stands for
  the serializer on inputs whose parameters are strings.
\<close>

definition sampleStringify :: "json \<Rightarrow> string" where
  "sampleStringify j = (case j of JString s \<Rightarrow> [CHR 0x22] @ s @ [CHR 0x22] | _ \<Rightarrow> ''null'')"

definition sampleTest :: "string \<Rightarrow> Test" where
  "sampleTest name =
     \<lparr>test_id = name, test_prompt = ''Create a file'', test_category = ''files'',
      expectedBehavior = Some ''Creates hello.txt'', evaluationCriteria = None,
      test_timeout = None\<rparr>"

definition sampleRunner :: ClaudeCodeRunner where
  "sampleRunner =
     ClaudeCodeRunner_new
       \<lparr>cfg_workspaceDir = None, cfg_timeout = None, cfg_useSkipPermissions = None\<rparr>"

definition sampleEnv :: "ProcessEvent \<Rightarrow> ExecEnv" where
  "sampleEnv event =
     \<lparr>env_startTime = 1000, env_mkdirError = None, env_writeFileError = None,
      env_process = event, env_files = [''ws/CLAUDE.md'', ''ws/hello.txt''],
      env_metricsTime = 2000, env_failureTime = 3000\<rparr>"

definition sampleResult :: TestResult where
  "sampleResult =
     (case executeTest sampleRunner ''Be brief.'' (sampleTest ''t1'') 1
             (sampleEnv (Closed ''Creates hello.txt now'' [] (Some 0) 1500)) of
        Inr r \<Rightarrow> r
      | Inl err \<Rightarrow> createFailedResult (sampleTest ''t1'') 1 err 3000)"

definition failingEvaluator :: BaseEvaluator where
  "failingEvaluator =
     \<lparr>metricName = ''speed'', description = ''a unit whose evaluate throws'',
      evaluate = (\<lambda>test result conv metrics. Inl (JsError ''TypeError'' ''boom''))\<rparr>"

definition sampleCall :: "string \<Rightarrow> string \<Rightarrow> ToolCall" where
  "sampleCall name path =
     \<lparr>toolName = name, parameters = JString path, tc_result = JNull, executionTimeMs = 1,
      tc_error = None\<rparr>"

definition sampleMessage :: "ToolCall list option \<Rightarrow> Message" where
  "sampleMessage calls =
     \<lparr>msg_role = Assistant, msg_content = [], msg_thinking = None, toolCalls = calls,
      msg_timestamp = 0, msg_tokens = None\<rparr>"

definition sampleConversation :: "Message list \<Rightarrow> ConversationHistory" where
  "sampleConversation msgs =
     \<lparr>messages = msgs, totalDurationMs = 0,
      modelConfig = \<lparr>mc_model = [], mc_temperature = 0, mc_maxTokens = 0\<rparr>\<rparr>"

text \<open>A run whose timer fires 4 ms after the default timeout of 120000 ms.\<close>

definition timedOutRun :: "JsError + TestResult" where
  "timedOutRun =
     executeTest sampleRunner ''Be brief.'' (sampleTest ''t1'') 1
       (sampleEnv (TimerFired ''Creates hello.txt'' 120004))"






section \<open>Properties of the string functions\<close>

lemma startsWith_append: "startsWith s p \<longleftrightarrow> (\<exists>r. s = p @ r)"
  by (induction s p rule: startsWith.induct) auto

lemma indexOf_occurrence:
  "indexOf s p = Some i \<Longrightarrow> s = take i s @ p @ drop (i + length p) s"
proof (induction s arbitrary: i)
  case Nil
  then show ?case by (simp split: if_splits)
next
  case (Cons c cs)
  show ?case
  proof (cases "startsWith (c # cs) p")
    case True
    with Cons.prems have "i = 0" by simp
    moreover from True obtain r where "c # cs = p @ r"
      by (auto simp: startsWith_append)
    ultimately show ?thesis by simp
  next
    case False
    with Cons.prems obtain j where j: "indexOf cs p = Some j" "i = Suc j"
      by auto
    from Cons.IH [OF j(1)] j(2) show ?thesis by simp
  qed
qed

lemma indexOf_first:
  "indexOf s p = Some i \<Longrightarrow> j < i \<Longrightarrow> \<not> startsWith (drop j s) p"
proof (induction s arbitrary: i j)
  case Nil
  then show ?case by (simp split: if_splits)
next
  case (Cons c cs)
  show ?case
  proof (cases "startsWith (c # cs) p")
    case True
    with Cons.prems show ?thesis by simp
  next
    case False
    with Cons.prems obtain k where k: "indexOf cs p = Some k" "i = Suc k"
      by auto
    show ?thesis
    proof (cases j)
      case 0
      with False show ?thesis by simp
    next
      case (Suc j')
      with Cons.prems(2) k(2) have "j' < k" by simp
      from Cons.IH [OF k(1) this] Suc show ?thesis by simp
    qed
  qed
qed

lemma indexOf_None: "indexOf s p = None \<Longrightarrow> s \<noteq> a @ p @ b"
proof (induction s arbitrary: a)
  case Nil
  then show ?case by (simp split: if_splits)
next
  case (Cons c cs)
  from Cons.prems have ns: "\<not> startsWith (c # cs) p" and rest: "indexOf cs p = None"
    by (auto split: if_splits)
  show ?case
  proof (cases a)
    case Nil
    with ns show ?thesis by (auto simp: startsWith_append)
  next
    case (Cons a0 a')
    with Cons.IH [OF rest, of a'] show ?thesis by auto
  qed
qed

lemma includes_str_iff: "includes_str s p \<longleftrightarrow> (\<exists>a b. s = a @ p @ b)"
proof
  assume "includes_str s p"
  then obtain i where "indexOf s p = Some i"
    by (auto simp: includes_str_def)
  from indexOf_occurrence [OF this] show "\<exists>a b. s = a @ p @ b" by blast
next
  assume "\<exists>a b. s = a @ p @ b"
  then show "includes_str s p"
    unfolding includes_str_def using indexOf_None by blast
qed

lemma getSubstitution_plain:
  "CHR ''$'' \<notin> set repl \<Longrightarrow> getSubstitution m pre post repl = repl"
  by (induction m pre post repl rule: getSubstitution.induct) auto

lemma js_replace_plain:
  "CHR ''$'' \<notin> set new \<Longrightarrow> js_replace s old new = replaceFirstLiteral s old new"
  by (simp add: js_replace_def replaceFirstLiteral_def getSubstitution_plain Let_def
      split: option.splits)

section \<open>Properties of the sandbox\<close>

lemma normalizePath_write_fs [simp]:
  "normalizePath (snd (write_fs fs now p c)) q = normalizePath fs q"
  by (simp add: normalizePath_def write_fs_def Let_def)

lemma files_write_fs:
  "map_of (files (snd (write_fs fs now p c))) (normalizePath fs p)
     = Some \<lparr>vf_path = normalizePath fs p, vf_content = c,
             vf_createdAt =
               (case map_of (files fs) (normalizePath fs p) of
                  None \<Rightarrow> now
                | Some old \<Rightarrow> if vf_createdAt old \<noteq> 0 then vf_createdAt old else now),
             vf_modifiedAt = now, vf_permissions = ''rw-r--r--''\<rparr>"
  by (simp add: write_fs_def Let_def update_conv')

text \<open>
  Claim C2. For every path \<open>p\<close>, content \<open>c\<close> and sandbox state, \<open>write(p, c)\<close> followed by
  \<open>read(p')\<close> returns exactly \<open>c\<close> whenever \<open>p'\<close> normalizes to the same path as \<open>p\<close>
  (in particular for \<open>p' = p\<close>), whatever the clock readings of the two calls.
\<close>

theorem write_then_read:
  assumes "normalizePath fs p' = normalizePath fs p"
  shows "fst (read (snd (write_fs fs t1 p c)) t2 p') = Some c"
  using assms by (simp add: read_def Let_def files_write_fs)

theorem write_then_read_witness:
  "normalizePath (VirtualFileSystem_new ''/workspace'') ''/workspace/docs/../notes.txt''
     = normalizePath (VirtualFileSystem_new ''/workspace'') ''notes.txt''
   \<and> fst (read (snd (write_fs (VirtualFileSystem_new ''/workspace'') 10 ''notes.txt'' ''hello''))
         11 ''/workspace/docs/../notes.txt'') = Some ''hello''"
proof -
  have same:
    "normalizePath (VirtualFileSystem_new ''/workspace'') ''/workspace/docs/../notes.txt''
       = normalizePath (VirtualFileSystem_new ''/workspace'') ''notes.txt''"
    by (simp add: normalizePath_def VirtualFileSystem_new_def path_normalize_def path_join_def
        endsWith_def Let_def)
  from write_then_read [OF same] same show ?thesis by simp
qed

lemma edit_not_found:
  "map_of (files fs) (normalizePath fs p) = None \<Longrightarrow>
     edit fs now p old new = (\<lparr>er_success = False, er_message = ''File not found''\<rparr>, fs)"
  by (simp add: edit_def)

lemma edit_fragment_not_found:
  "map_of (files fs) (normalizePath fs p) = Some f \<Longrightarrow> \<not> includes_str (vf_content f) old \<Longrightarrow>
     edit fs now p old new
       = (\<lparr>er_success = False, er_message = ''Old content not found in file''\<rparr>, fs)"
  by (simp add: edit_def)

lemma edit_success:
  "map_of (files fs) (normalizePath fs p) = Some f \<Longrightarrow> includes_str (vf_content f) old \<Longrightarrow>
     er_success (fst (edit fs now p old new)) \<and>
     map_option vf_content (map_of (files (snd (edit fs now p old new))) (normalizePath fs p))
       = Some (js_replace (vf_content f) old new)"
  by (simp add: edit_def Let_def update_conv')

lemma edit_literal_without_dollar:
  "map_of (files fs) (normalizePath fs p) = Some f \<Longrightarrow> includes_str (vf_content f) old \<Longrightarrow>
   CHR ''$'' \<notin> set new \<Longrightarrow>
     map_option vf_content (map_of (files (snd (edit fs now p old new))) (normalizePath fs p))
       = Some (replaceFirstLiteral (vf_content f) old new)"
  by (simp add: edit_success js_replace_plain)

text \<open>
  Claim C3. \<open>edit(p, old, new)\<close> is to replace exactly the first occurrence of \<open>old\<close> by
  \<open>new\<close>. On a file \<open>/a.txt\<close> holding \<open>total: N\<close>, the call
  \<open>edit("/a.txt", "N", "$$5")\<close> succeeds and leaves \<open>total: $5\<close>, whereas replacing the first
  occurrence of \<open>N\<close> by \<open>$$5\<close> gives \<open>total: $$5\<close>: the replacement text goes through
  the substitution patterns of \<open>String.prototype.replace\<close>.
\<close>

theorem edit_dollar_pattern:
  "er_success (fst (edit (snd (write_fs (VirtualFileSystem_new ''/workspace'') 1 ''/a.txt'' ''total: N''))
      2 ''/a.txt'' ''N'' ''$$5''))
   \<and> fst (read (snd (edit (snd (write_fs (VirtualFileSystem_new ''/workspace'') 1 ''/a.txt'' ''total: N''))
      2 ''/a.txt'' ''N'' ''$$5'')) 3 ''/a.txt'') = Some ''total: $5''
   \<and> replaceFirstLiteral ''total: N'' ''N'' ''$$5'' = ''total: $$5''"
  by (simp add: edit_def read_def write_fs_def VirtualFileSystem_new_def normalizePath_def
      path_normalize_def endsWith_def includes_str_def js_replace_def replaceFirstLiteral_def Let_def)

text \<open>
  Claim C6. After \<open>reset()\<close> on any sandbox state, \<open>listDirectory("/")\<close> returns the empty
  list and \<open>getFileOperations()\<close> returns the empty list; no file entry is left.
\<close>

theorem reset_clears:
  "listDirectory (reset fs) ''/'' = [] \<and> getFileOperations (reset fs) = [] \<and> files (reset fs) = []"
  by (simp add: listDirectory_def getFileOperations_def reset_def)

text \<open>
  Claim C9, as stated: \<open>delete(p)\<close> returns success for every path, also one that was never
  written. On a fresh sandbox \<open>delete("/never.txt")\<close> returns \<open>success: false\<close>.
\<close>

theorem delete_never_written:
  "fst (delete (VirtualFileSystem_new ''/workspace'') 0 ''/never.txt'') = False"
  by (simp add: delete_def VirtualFileSystem_new_def)

text \<open>
  Claim C9, amended. \<open>delete(p)\<close> never fails to return; its \<open>success\<close> flag tells whether
  the normalized path had an entry. In both cases the path has no entry afterwards and one
  \<open>delete\<close> record carrying the same flag is appended to the operation log.
\<close>

theorem delete_reports_presence:
  "fst (delete fs now p) = exists fs p
   \<and> exists (snd (delete fs now p)) p = False
   \<and> operations (snd (delete fs now p))
       = operations fs @ [\<lparr>op_type = OpDelete, op_path = normalizePath fs p, op_content = None,
                           op_timestamp = now, op_success = exists fs p\<rparr>]"
  by (simp add: delete_def exists_def normalizePath_def Let_def delete_conv')

section \<open>Properties of the evaluators\<close>

lemma normalizeScore_range: "0 \<le> normalizeScore v \<and> normalizeScore v \<le> 10"
  by (simp add: normalizeScore_def)

lemma calculateKeywordMatch_nonneg: "0 \<le> calculateKeywordMatch expected actual"
  by (simp add: calculateKeywordMatch_def)

lemma CorrectnessEvaluator_range:
  "0 \<le> CorrectnessEvaluator_evaluate t r c m \<and> CorrectnessEvaluator_evaluate t r c m \<le> 10"
  unfolding CorrectnessEvaluator_evaluate_def Let_def by (rule normalizeScore_range)

lemma SpeedEvaluator_range:
  "0 \<le> SpeedEvaluator_evaluate t r c m \<and> SpeedEvaluator_evaluate t r c m \<le> 10"
  using normalizeScore_range [of "3 - real_of_int ((responseTimeMs r - 20000) div 10000)"]
  by (simp add: SpeedEvaluator_evaluate_def Let_def)

lemma TokenEfficiencyEvaluator_range:
  "0 \<le> TokenEfficiencyEvaluator_evaluate S t r c m \<and> TokenEfficiencyEvaluator_evaluate S t r c m \<le> 10"
  unfolding TokenEfficiencyEvaluator_evaluate_def Let_def by (rule normalizeScore_range)

lemma CodeQualityEvaluator_range:
  "0 \<le> CodeQualityEvaluator_evaluate t r c m \<and> CodeQualityEvaluator_evaluate t r c m \<le> 10"
  unfolding CodeQualityEvaluator_evaluate_def Let_def by (rule normalizeScore_range)

lemma PlaceholderEvaluator_range:
  "0 \<le> PlaceholderEvaluator_evaluate t r c m \<and> PlaceholderEvaluator_evaluate t r c m \<le> 10"
  unfolding PlaceholderEvaluator_evaluate_def Let_def by (rule normalizeScore_range)

lemma default_registry:
  "evaluators (EvaluatorManager_new S) = map (\<lambda>e. (metricName e, e)) (defaultEvaluators S)"
  by (simp add: EvaluatorManager_new_def registerDefaultEvaluators_def defaultEvaluators_def
      registerEvaluator_def CorrectnessEvaluator_def SpeedEvaluator_def
      TokenEfficiencyEvaluator_def CodeQualityEvaluator_def PlaceholderEvaluator_def)

lemma default_registry_names:
  "map fst (evaluators (EvaluatorManager_new S)) = defaultMetricNames"
  by (simp add: default_registry defaultEvaluators_def defaultMetricNames_def
      CorrectnessEvaluator_def SpeedEvaluator_def TokenEfficiencyEvaluator_def
      CodeQualityEvaluator_def PlaceholderEvaluator_def)

lemma default_scores_range:
  "list_all (\<lambda>e. 0 \<le> scoreOf e t r \<and> scoreOf e t r \<le> 10) (defaultEvaluators S)"
  by (simp add: defaultEvaluators_def scoreOf_def CorrectnessEvaluator_def SpeedEvaluator_def
      TokenEfficiencyEvaluator_def CodeQualityEvaluator_def PlaceholderEvaluator_def
      CorrectnessEvaluator_range SpeedEvaluator_range TokenEfficiencyEvaluator_range
      CodeQualityEvaluator_range PlaceholderEvaluator_range)

lemma update_fresh_key: "k \<notin> fst ` set al \<Longrightarrow> AList.update k v al = al @ [(k, v)]"
  by (induction al) auto

lemma map_entries_update:
  "map (\<lambda>entry. (fst entry, f (snd entry))) (AList.update k v al)
     = AList.update k (f v) (map (\<lambda>entry. (fst entry, f (snd entry))) al)"
  by (induction al) auto

lemma filter_names_update:
  "k \<noteq> p \<Longrightarrow>
     filter (\<lambda>entry. fst entry \<noteq> p) (AList.update k v al)
       = AList.update k v (filter (\<lambda>entry. fst entry \<noteq> p) al)"
  by (induction al) auto

lemma filter_names_update_dropped:
  "filter (\<lambda>entry. fst entry \<noteq> p) (AList.update p v al) = filter (\<lambda>entry. fst entry \<noteq> p) al"
  by (induction al) auto

lemma names_of_entries:
  "map fst (map (\<lambda>entry. (fst entry, f (snd entry))) (filter (\<lambda>entry. fst entry \<noteq> p) al))
     = filter (\<lambda>n. n \<noteq> p) (map fst al)"
  by (induction al) auto

lemma collect_scores:
  "distinct (map fst xs) \<Longrightarrow> fst ` set acc \<inter> fst ` set xs = {} \<Longrightarrow>
     foldl (\<lambda>scores entry. setProperty (fst entry) (g (snd entry)) scores) acc xs
       = acc @ map (\<lambda>entry. (fst entry, g (snd entry)))
                 (filter (\<lambda>entry. fst entry \<noteq> ''__proto__'') xs)"
proof (induction xs arbitrary: acc)
  case Nil
  then show ?case by simp
next
  case (Cons x xs)
  from Cons.prems have rest: "distinct (map fst xs)" by simp
  show ?case
  proof (cases "fst x = ''__proto__''")
    case True
    from Cons.prems have "fst ` set acc \<inter> fst ` set xs = {}" by auto
    from Cons.IH [OF rest this] True show ?thesis
      by (simp add: setProperty_def)
  next
    case False
    from Cons.prems have fresh: "fst x \<notin> fst ` set acc" by auto
    have step: "setProperty (fst x) (g (snd x)) acc = acc @ [(fst x, g (snd x))]"
      using fresh False by (simp add: setProperty_def update_fresh_key)
    from Cons.prems have "fst ` set (acc @ [(fst x, g (snd x))]) \<inter> fst ` set xs = {}"
      by (auto simp: image_iff)
    from Cons.IH [OF rest this] step False show ?thesis by simp
  qed
qed

lemma evaluateAll_entries:
  "distinct (map fst (evaluators m)) \<Longrightarrow>
     evaluateAll m t r
       = map (\<lambda>entry. (fst entry, scoreOf (snd entry) t r))
           (filter (\<lambda>entry. fst entry \<noteq> ''__proto__'') (evaluators m))"
  using collect_scores [of "evaluators m" "[]" "\<lambda>e. scoreOf e t r"]
  by (simp add: evaluateAll_def)

lemma registered_distinct:
  "distinct (map fst (evaluators m)) \<Longrightarrow>
     distinct (map fst (evaluators (foldl registerEvaluator m evs)))"
  by (induction evs arbitrary: m) (simp_all add: registerEvaluator_def distinct_update)

lemma default_distinct: "distinct (map fst (evaluators (EvaluatorManager_new S)))"
  by (simp add: default_registry_names defaultMetricNames_def)

lemma list_all_update:
  "list_all P al \<Longrightarrow> P (k, v) \<Longrightarrow> list_all P (AList.update k v al)"
  by (induction al) auto

lemma scoreOf_throws:
  "evaluate ev t r (conversation r) (metricsRaw r) = Inl err \<Longrightarrow> scoreOf ev t r = 5"
  by (simp add: scoreOf_def)

lemma evaluateAll_default:
  "evaluateAll (EvaluatorManager_new S) t r
     = map (\<lambda>e. (metricName e, scoreOf e t r)) (defaultEvaluators S)"
proof -
  have "filter (\<lambda>entry. fst entry \<noteq> ''__proto__'') (evaluators (EvaluatorManager_new S))
      = evaluators (EvaluatorManager_new S)"
    by (simp add: default_registry defaultEvaluators_def CorrectnessEvaluator_def
        SpeedEvaluator_def TokenEfficiencyEvaluator_def CodeQualityEvaluator_def
        PlaceholderEvaluator_def)
  then show ?thesis
    by (simp add: evaluateAll_entries [OF default_distinct] default_registry comp_def)
qed

lemma evaluateAll_proto:
  "distinct (map fst (evaluators m)) \<Longrightarrow> map_of (evaluateAll m t r) ''__proto__'' = None"
  by (auto simp: evaluateAll_entries map_of_eq_None_iff)

text \<open>
  Claim C1. For every test and result, \<open>evaluateAll\<close> on the default manager returns
  scores whose names are exactly the nine default metric names, each once, with every
  value in \<open>[0, 10]\<close>. For every manager reached from it by further registrations each
  returned name occurs once, and the returned names are the registered names other than
  \<open>__proto__\<close> (a name under which the object takes no property). When the \<open>evaluate\<close>
  of a unit registered under a name other than \<open>__proto__\<close> throws, the scores are what
  they were before that registration with the entry of that name set to 5: every other
  entry is unaffected, and the values stay in \<open>[0, 10]\<close> if they were there before.
\<close>

theorem evaluateAll_scores:
  "map fst (evaluateAll (EvaluatorManager_new S) t r) = defaultMetricNames
   \<and> distinct defaultMetricNames
   \<and> list_all (\<lambda>entry. 0 \<le> snd entry \<and> snd entry \<le> 10) (evaluateAll (EvaluatorManager_new S) t r)
   \<and> (let m = foldl registerEvaluator (EvaluatorManager_new S) extra
      in distinct (map fst (evaluateAll m t r))
         \<and> set (map fst (evaluateAll m t r)) = set (map fst (evaluators m)) - {''__proto__''}
         \<and> (\<forall>ev err. evaluate ev t r (conversation r) (metricsRaw r) = Inl err
                  \<and> metricName ev \<noteq> ''__proto__'' \<longrightarrow>
               map_of (evaluateAll (registerEvaluator m ev) t r)
                 = (map_of (evaluateAll m t r))(metricName ev \<mapsto> 5)
               \<and> map_of (evaluateAll (registerEvaluator m ev) t r) (metricName ev) = Some 5
               \<and> (list_all (\<lambda>entry. 0 \<le> snd entry \<and> snd entry \<le> 10) (evaluateAll m t r) \<longrightarrow>
                  list_all (\<lambda>entry. 0 \<le> snd entry \<and> snd entry \<le> 10)
                    (evaluateAll (registerEvaluator m ev) t r))))"
proof -
  define m where "m = foldl registerEvaluator (EvaluatorManager_new S) extra"
  have dm: "distinct (map fst (evaluators m))"
    unfolding m_def by (rule registered_distinct [OF default_distinct])
  have names: "map fst (evaluateAll (EvaluatorManager_new S) t r) = defaultMetricNames"
    using default_registry_names [of S]
    by (simp add: evaluateAll_default default_registry comp_def)
  have range: "list_all (\<lambda>entry. 0 \<le> snd entry \<and> snd entry \<le> 10)
      (evaluateAll (EvaluatorManager_new S) t r)"
    using default_scores_range [of t r S]
    by (simp add: evaluateAll_default list_all_iff)
  have keys: "map fst (evaluateAll m t r)
      = filter (\<lambda>n. n \<noteq> ''__proto__'') (map fst (evaluators m))"
    unfolding evaluateAll_entries [OF dm] by (rule names_of_entries)
  have once: "distinct (map fst (evaluateAll m t r))"
    using dm by (simp add: keys)
  have listed: "set (map fst (evaluateAll m t r)) = set (map fst (evaluators m)) - {''__proto__''}"
    unfolding keys by auto
  have isolated: "evaluateAll (registerEvaluator m ev) t r
      = AList.update (metricName ev) 5 (evaluateAll m t r)"
    if throws: "evaluate ev t r (conversation r) (metricsRaw r) = Inl err"
      and named: "metricName ev \<noteq> ''__proto__''" for ev err
  proof -
    have "distinct (map fst (evaluators (registerEvaluator m ev)))"
      using dm by (simp add: registerEvaluator_def distinct_update)
    then have "evaluateAll (registerEvaluator m ev) t r
        = map (\<lambda>entry. (fst entry, scoreOf (snd entry) t r))
            (AList.update (metricName ev) ev
               (filter (\<lambda>entry. fst entry \<noteq> ''__proto__'') (evaluators m)))"
      by (simp add: evaluateAll_entries registerEvaluator_def filter_names_update [OF named])
    also have "\<dots> = AList.update (metricName ev) (scoreOf ev t r) (evaluateAll m t r)"
      using map_entries_update [of "\<lambda>e. scoreOf e t r" "metricName ev" ev
          "filter (\<lambda>entry. fst entry \<noteq> ''__proto__'') (evaluators m)"]
      by (simp add: evaluateAll_entries [OF dm])
    finally show ?thesis by (simp add: scoreOf_throws [OF throws])
  qed
  have others: "map_of (evaluateAll (registerEvaluator m ev) t r)
      = (map_of (evaluateAll m t r))(metricName ev \<mapsto> 5)"
    if throws: "evaluate ev t r (conversation r) (metricsRaw r) = Inl err"
      and named: "metricName ev \<noteq> ''__proto__''" for ev err
    by (simp add: isolated [OF throws named] update_conv')
  have neutral: "map_of (evaluateAll (registerEvaluator m ev) t r) (metricName ev) = Some 5"
    if throws: "evaluate ev t r (conversation r) (metricsRaw r) = Inl err"
      and named: "metricName ev \<noteq> ''__proto__''" for ev err
    by (simp add: others [OF throws named])
  have bounded: "list_all (\<lambda>entry. 0 \<le> snd entry \<and> snd entry \<le> 10)
      (evaluateAll (registerEvaluator m ev) t r)"
    if throws: "evaluate ev t r (conversation r) (metricsRaw r) = Inl err"
      and named: "metricName ev \<noteq> ''__proto__''"
      and before: "list_all (\<lambda>entry. 0 \<le> snd entry \<and> snd entry \<le> (10::real)) (evaluateAll m t r)"
    for ev err
    unfolding isolated [OF throws named] using before by (rule list_all_update) simp
  have defaults: "distinct defaultMetricNames"
    by (simp add: defaultMetricNames_def)
  show ?thesis
    unfolding Let_def m_def [symmetric]
  proof (intro conjI allI impI, goal_cases)
    case 1
    show ?case by (rule names)
  next
    case 2
    show ?case by (rule defaults)
  next
    case 3
    show ?case by (rule range)
  next
    case 4
    show ?case by (rule once)
  next
    case 5
    show ?case by (rule listed)
  next
    case (6 ev err)
    then show ?case using others [of ev err] by simp
  next
    case (7 ev err)
    then show ?case using neutral [of ev err] by simp
  next
    case (8 ev err)
    then show ?case using bounded [of ev err] by simp
  qed
qed

lemma sampleResult_value:
  "sampleResult =
     \<lparr>testRunId = 1, testId = ''t1'', prompt = ''Create a file'',
      response = ''Creates hello.txt now'', tokensInput = 6, tokensOutput = 6,
      tokensThinking = None, responseTimeMs = 1500,
      scores =
        \<lparr>correctness = 7, speed = 9, tokenEfficiency = 7, documentation = 7, codeQuality = 7,
         security = 7, instructionAdherence = 7, consistency = 7, errorRecovery = 8\<rparr>,
      conversation =
        \<lparr>messages =
           [\<lparr>msg_role = User, msg_content = ''Create a file'', msg_thinking = None,
             toolCalls = None, msg_timestamp = 1000,
             msg_tokens = Some \<lparr>tk_input = 4, tk_output = 0, tk_thinking = None\<rparr>\<rparr>,
            \<lparr>msg_role = Assistant, msg_content = ''Creates hello.txt now'', msg_thinking = None,
             toolCalls = None, msg_timestamp = 2500,
             msg_tokens = Some \<lparr>tk_input = 0, tk_output = 6, tk_thinking = None\<rparr>\<rparr>],
         totalDurationMs = 1500,
         modelConfig = \<lparr>mc_model = ''claude-code'', mc_temperature = 0, mc_maxTokens = 0\<rparr>\<rparr>,
      metricsRaw =
        \<lparr>allToolCalls = [],
         fileOperations =
           [\<lparr>op_type = OpWrite, op_path = ''ws/hello.txt'', op_content = None,
             op_timestamp = 2000, op_success = True\<rparr>],
         commandsExecuted = [], errorsEncountered = [], retryAttempts = 0\<rparr>\<rparr>"
  by (simp add: sampleResult_def sampleTest_def sampleRunner_def sampleEnv_def
      ClaudeCodeRunner_new_def executeTest_def collectMetrics_def estimateTokens_def
      endsWith_def Let_def)

lemma sampleResult_fields:
  "response sampleResult = ''Creates hello.txt now''"
  "tokensInput sampleResult = 6" "tokensOutput sampleResult = 6"
  "tokensThinking sampleResult = None" "responseTimeMs sampleResult = 1500"
  "errorsEncountered (metricsRaw sampleResult) = []"
  "retryAttempts (metricsRaw sampleResult) = 0"
  "fileOperations (metricsRaw sampleResult) =
     [\<lparr>op_type = OpWrite, op_path = ''ws/hello.txt'', op_content = None,
       op_timestamp = 2000, op_success = True\<rparr>]"
  by (simp_all add: sampleResult_value)

lemma sample_keywords:
  "extractKeywords ''Creates hello.txt'' = [''creates'', ''hello'']"
  "extractKeywords ''Creates hello.txt now'' = [''creates'', ''hello'']"
  by (simp_all add: extractKeywords_def toLowerCase_def toLowerChar_def isWordChar_def)

lemma sample_correctness:
  "CorrectnessEvaluator_evaluate (sampleTest ''t1'') sampleResult
     (conversation sampleResult) (metricsRaw sampleResult) = 10"
  by (simp add: CorrectnessEvaluator_evaluate_def sampleResult_fields sampleTest_def
      sample_keywords calculateKeywordMatch_def includes_str_def normalizeScore_def Let_def)

lemma sample_speed:
  "SpeedEvaluator_evaluate (sampleTest ''t1'') sampleResult
     (conversation sampleResult) (metricsRaw sampleResult) = 10"
  by (simp add: SpeedEvaluator_evaluate_def sampleResult_fields)

lemma sample_no_duplicates: "countDuplicateToolCalls S (conversation sampleResult) = 0"
  by (simp add: sampleResult_value countDuplicateToolCalls_def)

lemma sample_tokenEfficiency:
  "TokenEfficiencyEvaluator_evaluate S (sampleTest ''t1'') sampleResult
     (conversation sampleResult) (metricsRaw sampleResult) = 10"
proof -
  have "ratioScore 6 6 = 10"
    by (simp add: ratioScore_def Let_def)
  then show ?thesis
    by (simp add: TokenEfficiencyEvaluator_evaluate_def sampleResult_fields
        sample_no_duplicates normalizeScore_def Let_def)
qed

lemma sample_codeQuality:
  "CodeQualityEvaluator_evaluate (sampleTest ''t1'') sampleResult
     (conversation sampleResult) (metricsRaw sampleResult) = 9"
proof -
  have flat: "\<not> checkFileStructure
      [\<lparr>op_type = OpWrite, op_path = ''ws/hello.txt'', op_content = None,
        op_timestamp = 2000, op_success = True\<rparr>]"
    by (simp add: checkFileStructure_def includes_str_def)
  have consistent: "checkOperationConsistency (metricsRaw sampleResult) = 1"
    by (simp add: checkOperationConsistency_def sampleResult_fields)
  show ?thesis
    by (simp add: CodeQualityEvaluator_evaluate_def sampleResult_fields flat consistent
        normalizeScore_def Let_def)
qed

lemma sample_placeholder:
  "PlaceholderEvaluator_evaluate (sampleTest ''t1'') sampleResult
     (conversation sampleResult) (metricsRaw sampleResult) = 5"
  by (simp add: PlaceholderEvaluator_evaluate_def sampleResult_fields normalizeScore_def Let_def)

theorem evaluateAll_scores_witness:
  "evaluateAll (EvaluatorManager_new sampleStringify) (sampleTest ''t1'') sampleResult
     = [(''correctness'', 10), (''speed'', 10), (''tokenEfficiency'', 10), (''codeQuality'', 9),
        (''documentation'', 5), (''security'', 5), (''instructionAdherence'', 5),
        (''consistency'', 5), (''errorRecovery'', 5)]
   \<and> map_of (evaluateAll (registerEvaluator (EvaluatorManager_new sampleStringify) failingEvaluator)
        (sampleTest ''t1'') sampleResult) ''speed'' = Some 5
   \<and> map_of (evaluateAll (registerEvaluator (EvaluatorManager_new sampleStringify) failingEvaluator)
        (sampleTest ''t1'') sampleResult) ''correctness'' = Some 10
   \<and> map_of (evaluateAll (registerEvaluator (EvaluatorManager_new sampleStringify) failingEvaluator)
        (sampleTest ''t1'') sampleResult) ''codeQuality'' = Some 9"
proof -
  have throws: "evaluate failingEvaluator (sampleTest ''t1'') sampleResult
      (conversation sampleResult) (metricsRaw sampleResult) = Inl (JsError ''TypeError'' ''boom'')"
    by (simp add: failingEvaluator_def)
  have named: "metricName failingEvaluator \<noteq> ''__proto__''"
    by (simp add: failingEvaluator_def)
  have base: "evaluateAll (EvaluatorManager_new sampleStringify) (sampleTest ''t1'') sampleResult
     = [(''correctness'', 10), (''speed'', 10), (''tokenEfficiency'', 10), (''codeQuality'', 9),
        (''documentation'', 5), (''security'', 5), (''instructionAdherence'', 5),
        (''consistency'', 5), (''errorRecovery'', 5)]"
    by (simp add: evaluateAll_default defaultEvaluators_def scoreOf_def
        CorrectnessEvaluator_def SpeedEvaluator_def TokenEfficiencyEvaluator_def
        CodeQualityEvaluator_def PlaceholderEvaluator_def
        sample_correctness sample_speed sample_tokenEfficiency sample_codeQuality
        sample_placeholder)
  from evaluateAll_scores [of sampleStringify "sampleTest ''t1''" sampleResult "[]"] throws named
  have "map_of (evaluateAll (registerEvaluator (EvaluatorManager_new sampleStringify) failingEvaluator)
       (sampleTest ''t1'') sampleResult)
     = (map_of (evaluateAll (EvaluatorManager_new sampleStringify) (sampleTest ''t1'') sampleResult))
         (metricName failingEvaluator \<mapsto> 5)"
    by (simp add: Let_def)
  with base show ?thesis by (simp add: failingEvaluator_def)
qed

text \<open>
  Claim C4. For every test, result, conversation and metrics, the correctness evaluator
  returns exactly 0 whenever the response is empty or contains the marker
  \<open>Test failed:\<close>, whatever the error and retry counts and the expected-behaviour keywords.
\<close>

theorem correctness_zero_on_failure_marker:
  assumes "response result = [] \<or> includes_str (response result) ''Test failed:''"
  shows "CorrectnessEvaluator_evaluate test result conv metrics = 0
         \<and> evaluate CorrectnessEvaluator test result conv metrics = Inr 0"
proof -
  have cap: "min 0 (calculateKeywordMatch ks rs * 10) = 0" for ks rs
    using calculateKeywordMatch_nonneg [of ks rs] by simp
  have "CorrectnessEvaluator_evaluate test result conv metrics = 0"
    using assms
    by (auto simp: CorrectnessEvaluator_evaluate_def Let_def normalizeScore_def cap
        split: option.splits)
  then show ?thesis by (simp add: CorrectnessEvaluator_def)
qed

theorem correctness_zero_on_failure_marker_witness:
  "includes_str (response (createFailedResult (sampleTest ''t1'') 1
       (JsError ''Error'' ''spawn claude ENOENT'') 3000)) ''Test failed:''
   \<and> evaluate CorrectnessEvaluator (sampleTest ''t1'')
        (createFailedResult (sampleTest ''t1'') 1 (JsError ''Error'' ''spawn claude ENOENT'') 3000)
        (conversation sampleResult) (metricsRaw sampleResult) = Inr 0"
proof -
  have marker: "includes_str (response (createFailedResult (sampleTest ''t1'') 1
       (JsError ''Error'' ''spawn claude ENOENT'') 3000)) ''Test failed:''"
    by (simp add: createFailedResult_def errorText_def includes_str_def)
  from correctness_zero_on_failure_marker [of _ "sampleTest ''t1''"
      "conversation sampleResult" "metricsRaw sampleResult", OF disjI2, OF marker] marker
  show ?thesis by simp
qed

section \<open>Serialized text determines the signature's two parts\<close>

lemma lex_Nil: "lex st [] = st"
  by (simp add: lex_def)

lemma lex_Cons: "lex st (c # cs) = lex (lexstep st c) cs"
  by (simp add: lex_def)

lemma lex_append: "lex st (x @ y) = lex (lex st x) y"
  by (simp add: lex_def)

lemma lex_snoc: "lex st (x @ [c]) = lexstep (lex st x) c"
  by (simp add: lex_def)

lemma stays_append: "stays P st (x @ y) = (stays P st x \<and> stays P (lex st x) y)"
  by (induction x arbitrary: st) (auto simp: lex_Nil lex_Cons)

lemma stays_mono: "stays P st x \<Longrightarrow> (\<And>s. P s \<Longrightarrow> Q s) \<Longrightarrow> stays Q st x"
  by (induction x arbitrary: st) auto

lemma stays_prefix: "stays P st (u @ c # rest) \<Longrightarrow> P (lex st (u @ [c]))"
  by (simp add: stays_append lex_snoc)

text \<open>A reader that is \<open>Broken\<close> stays so; no reader is \<open>Escaped\<close> after a colon.\<close>

lemma lex_Broken: "lex (Broken, d) x = (Broken, d)"
  by (induction x) (simp_all add: lex_Nil lex_Cons)

lemma lexstep_colon: "fst (lexstep (m, d) CHR '':'') \<noteq> Escaped"
  by (cases m) simp_all

text \<open>Readers in opposite modes stay in opposite modes.\<close>

lemma opposite_step:
  "opposite m f \<Longrightarrow> opposite (fst (lexstep (m, d) c)) (fst (lexstep (f, e) c))"
  by (cases m; cases f) (simp_all add: opposite_def)

lemma opposite_lex:
  "opposite (fst s) (fst t) \<Longrightarrow> opposite (fst (lex s x)) (fst (lex t x))"
proof (induction x arbitrary: s t)
  case Nil
  then show ?case by (simp add: lex_Nil)
next
  case (Cons c x)
  from Cons.prems have "opposite (fst (lexstep s c)) (fst (lexstep t c))"
    using opposite_step [of "fst s" "fst t" "snd s" c "snd t"] by simp
  then show ?case
    by (simp add: lex_Cons Cons.IH)
qed

lemma inside_never_outside:
  assumes "fst (lex (Outside, d) x) = Outside"
  shows "fst (lex (Inside, e) x) \<noteq> Outside"
  using opposite_lex [of "(Outside, d)" "(Inside, e)" x] assms
  by (auto simp: opposite_def)

text \<open>Text between two delimiters: a prefix that ends inside it is read like the inner text.\<close>

lemma enclosed_prefix:
  assumes split: "a # inner @ [b] = u @ c # rest"
    and "a \<noteq> c" and "b \<noteq> c"
    and inner: "stays P (lexstep st a) inner"
  shows "P (lex st (u @ [c]))"
proof -
  from split \<open>a \<noteq> c\<close> obtain u' where u: "u = a # u'"
    by (cases u) auto
  with split have rest: "inner @ [b] = u' @ c # rest"
    by simp
  with \<open>b \<noteq> c\<close> obtain rest' where "rest = rest' @ [b]"
    by (cases rest rule: rev_cases) auto
  with rest have "inner = u' @ c # rest'"
    by simp
  with inner have "P (lex (lexstep st a) (u' @ [c]))"
    by (simp add: stays_prefix)
  then show ?thesis
    by (simp add: u lex_Cons)
qed

subsection \<open>Quoted strings\<close>

lemma hexDigit_plain: "n < 16 \<Longrightarrow> hexDigit n \<noteq> CHR 0x22 \<and> hexDigit n \<noteq> CHR 0x5C"
proof -
  assume "n < 16"
  then have "hexDigit n \<in> set ''0123456789abcdef''"
    unfolding hexDigit_def by (intro nth_mem) simp
  then show ?thesis by auto
qed

lemma escapeChar_inside:
  "lex (Inside, d) (escapeChar c) = (Inside, d)
   \<and> stays (\<lambda>st. fst st \<noteq> Outside \<and> snd st = d) (Inside, d) (escapeChar c)"
proof -
  have "(of_char c :: nat) < 32 \<Longrightarrow> (of_char c :: nat) div 16 < 16"
    by simp
  moreover have "(of_char c :: nat) mod 16 < 16"
    by simp
  ultimately show ?thesis
    using hexDigit_plain [of "of_char c div 16"] hexDigit_plain [of "of_char c mod 16"]
    by (simp add: escapeChar_def lex_Nil lex_Cons)
qed

lemma escaped_inside:
  "lex (Inside, d) (concat (map escapeChar s)) = (Inside, d)
   \<and> stays (\<lambda>st. fst st \<noteq> Outside \<and> snd st = d) (Inside, d) (concat (map escapeChar s))"
  by (induction s) (simp_all add: lex_Nil lex_append stays_append escapeChar_inside)

lemma quoteJSON_balanced: "balancedText d (quoteJSON s)"
proof -
  have "stays (\<lambda>st. d \<le> snd st) (Inside, d) (concat (map escapeChar s))"
    using escaped_inside [of d s] by (auto elim: stays_mono)
  then show ?thesis
    by (simp add: balancedText_def quoteJSON_def lex_Cons lex_append lex_Nil stays_append
        escaped_inside)
qed

lemma quoteJSON_sealed:
  assumes "quoteJSON s = u @ CHR '':'' # rest"
  shows "fst (lex (Outside, d) (u @ [CHR '':''])) \<noteq> Outside"
proof -
  have "stays (\<lambda>st. fst st \<noteq> Outside) (lexstep (Outside, d) CHR 0x22) (concat (map escapeChar s))"
    using escaped_inside [of d s] by (auto elim: stays_mono)
  moreover from assms
  have "CHR 0x22 # concat (map escapeChar s) @ [CHR 0x22] = u @ CHR '':'' # rest"
    by (simp add: quoteJSON_def)
  ultimately show ?thesis
    using enclosed_prefix [where P = "\<lambda>st. fst st \<noteq> Outside" and a = "CHR 0x22" and b = "CHR 0x22"
        and c = "CHR '':''" and inner = "concat (map escapeChar s)" and u = u and rest = rest
        and st = "(Outside, d)"]
    by simp
qed

subsection \<open>Serialized values\<close>

lemma balancedText_append:
  "balancedText d x \<Longrightarrow> balancedText d y \<Longrightarrow> balancedText d (x @ y)"
  by (simp add: balancedText_def lex_append stays_append)

lemma balancedText_plain:
  "\<forall>c \<in> set x. c \<notin> set [CHR 0x22, CHR 0x5C, CHR ''{'', CHR ''['', CHR ''}'', CHR '']'']
     \<Longrightarrow> balancedText d x"
  by (induction x) (simp_all add: balancedText_def lex_Nil lex_Cons)

lemma balancedText_joinWith:
  "\<forall>x \<in> set xs. balancedText d x \<Longrightarrow> balancedText d (joinWith '','' xs)"
proof (induction "'',''" xs rule: joinWith.induct)
  case 1
  then show ?case by (simp add: balancedText_def lex_Nil)
next
  case (2 s)
  then show ?case by simp
next
  case (3 s t rest)
  have "balancedText d '',''"
    by (rule balancedText_plain) simp
  with 3 have "balancedText d (s @ '','' @ joinWith '','' (t # rest))"
    by (intro balancedText_append) simp_all
  then show ?case by simp
qed

lemma balancedText_enclosed:
  assumes "balancedText (d + 1) inner"
    and "(a = CHR ''['' \<and> b = CHR '']'') \<or> (a = CHR ''{'' \<and> b = CHR ''}'')"
  shows "balancedText d (a # inner @ [b])"
proof -
  from assms(1) have "stays (\<lambda>st. d \<le> snd st) (Outside, d + 1) inner"
    unfolding balancedText_def by (auto elim: stays_mono)
  with assms show ?thesis
    by (auto simp: balancedText_def lex_Cons lex_append lex_Nil stays_append)
qed

lemma numcharText_plain:
  "numcharText n \<notin> set [CHR 0x22, CHR 0x5C, CHR ''{'', CHR ''['', CHR ''}'', CHR '']'', CHR '':'']"
  by (cases n) simp_all

lemma JSON_stringify_balanced: "balancedText d (JSON_stringify j)"
proof (induction j arbitrary: d)
  case JNull
  show ?case by (simp add: balancedText_def lex_Nil lex_Cons)
next
  case (JBool b)
  show ?case by (simp add: balancedText_def lex_Nil lex_Cons)
next
  case (JNumber c cs)
  show ?case
    unfolding JSON_stringify.simps
    by (rule balancedText_plain) (use numcharText_plain in auto)
next
  case (JString s)
  show ?case by (simp add: quoteJSON_balanced)
next
  case (JArray xs)
  then have "balancedText (d + 1) (joinWith '','' (map JSON_stringify xs))"
    by (intro balancedText_joinWith) simp
  then have "balancedText d (CHR ''['' # joinWith '','' (map JSON_stringify xs) @ [CHR '']''])"
    by (rule balancedText_enclosed) simp
  then show ?case by simp
next
  case (JObject members)
  have colon: "balancedText (d + 1) '':''"
    by (rule balancedText_plain) simp
  have "balancedText (d + 1) (quoteJSON (fst member) @ '':'' @ JSON_stringify (snd member))"
    if "member \<in> set members" for member
  proof -
    have "snd member \<in> Basic_BNFs.snds member"
      by (cases member) simp
    with that have "balancedText (d + 1) (JSON_stringify (snd member))"
      by (rule JObject.IH)
    with colon show ?thesis
      by (intro balancedText_append quoteJSON_balanced)
  qed
  then have "balancedText (d + 1)
      (joinWith '','' (map (\<lambda>member. quoteJSON (fst member) @ '':'' @ JSON_stringify (snd member)) members))"
    by (intro balancedText_joinWith) simp
  then have "balancedText d
      (CHR ''{'' # joinWith '','' (map (\<lambda>member. quoteJSON (fst member) @ '':'' @ JSON_stringify (snd member)) members)
         @ [CHR ''}''])"
    by (rule balancedText_enclosed) simp
  then show ?case by simp
qed

lemma member_balanced: "balancedText d (quoteJSON k @ CHR '':'' # JSON_stringify v)"
proof -
  have "balancedText d '':''"
    by (rule balancedText_plain) simp
  then have "balancedText d (quoteJSON k @ '':'' @ JSON_stringify v)"
    by (intro balancedText_append quoteJSON_balanced JSON_stringify_balanced)
  then show ?thesis by simp
qed

text \<open>
  A prefix of a serialized value that ends with a colon leaves the reader inside a string
  or inside a bracket, never where it started.
\<close>

lemma enclosed_sealed:
  assumes "a # inner @ [b] = u @ CHR '':'' # rest"
    and "(a = CHR ''['' \<and> b = CHR '']'') \<or> (a = CHR ''{'' \<and> b = CHR ''}'')"
    and "balancedText (d + 1) inner"
  shows "lex (Outside, d) (u @ [CHR '':'']) \<noteq> (Outside, d)"
proof -
  from assms(2,3) have "stays (\<lambda>st. d + 1 \<le> snd st) (lexstep (Outside, d) a) inner"
    by (auto simp: balancedText_def)
  with assms(1,2) have "d + 1 \<le> snd (lex (Outside, d) (u @ [CHR '':'']))"
    using enclosed_prefix [where P = "\<lambda>st. d + 1 \<le> snd st" and a = a and b = b
        and c = "CHR '':''" and inner = inner and u = u and rest = rest and st = "(Outside, d)"]
    by auto
  then show ?thesis by auto
qed

lemma colon_member: "x = u @ CHR '':'' # rest \<Longrightarrow> CHR '':'' \<in> set x"
  by simp

lemma JSON_stringify_sealed:
  assumes "JSON_stringify j = u @ CHR '':'' # rest"
  shows "lex (Outside, d) (u @ [CHR '':'']) \<noteq> (Outside, d)"
proof (cases j)
  case JNull
  with assms have "CHR '':'' \<in> set ''null''"
    by (simp add: colon_member)
  then show ?thesis by simp
next
  case (JBool b)
  with assms have "CHR '':'' \<in> set (if b then ''true'' else ''false'')"
    by (simp add: colon_member)
  then show ?thesis by (simp split: if_splits)
next
  case (JNumber c cs)
  with assms have "CHR '':'' \<in> set (map numcharText (c # cs))"
    using colon_member [of "map numcharText (c # cs)" u rest] by simp
  then obtain n where "numcharText n = CHR '':''"
    by auto
  with numcharText_plain [of n] show ?thesis
    by simp
next
  case (JString s)
  with assms quoteJSON_sealed [of s u rest d] show ?thesis
    by auto
next
  case (JArray xs)
  have "balancedText (d + 1) (joinWith '','' (map JSON_stringify xs))"
    by (intro balancedText_joinWith) (simp add: JSON_stringify_balanced)
  with assms JArray show ?thesis
    using enclosed_sealed [where a = "CHR ''[''" and b = "CHR '']''" and rest = rest and u = u
        and inner = "joinWith '','' (map JSON_stringify xs)" and d = d]
    by simp
next
  case (JObject members)
  let ?items = "map (\<lambda>member. quoteJSON (fst member) @ '':'' @ JSON_stringify (snd member)) members"
  have "balancedText (d + 1) (joinWith '','' ?items)"
    by (intro balancedText_joinWith) (simp add: member_balanced)
  with assms JObject show ?thesis
    using enclosed_sealed [where a = "CHR ''{''" and b = "CHR ''}''" and rest = rest and u = u
        and inner = "joinWith '','' ?items" and d = d]
    by simp
qed

text \<open>No serialized value is some text, a colon and another serialized value.\<close>

lemma JSON_stringify_no_resplit:
  "JSON_stringify j \<noteq> u @ CHR '':'' # JSON_stringify j'"
proof
  assume split: "JSON_stringify j = u @ CHR '':'' # JSON_stringify j'"
  obtain m e where st: "lex (Outside, 0) (u @ [CHR '':'']) = (m, e)"
    by (cases "lex (Outside, 0) (u @ [CHR '':''])")
  have whole: "lex (Outside, 0) (JSON_stringify j) = (Outside, 0)"
    using JSON_stringify_balanced [of 0 j] by (simp add: balancedText_def)
  have "lex (Outside, 0) (JSON_stringify j) = lex (m, e) (JSON_stringify j')"
    using lex_append [of "(Outside, 0)" "u @ [CHR '':'']" "JSON_stringify j'"]
    by (simp add: split st)
  with whole have rest: "lex (m, e) (JSON_stringify j') = (Outside, 0)"
    by simp
  have inner: "lex (Outside, e) (JSON_stringify j') = (Outside, e)"
    using JSON_stringify_balanced [of e j'] by (simp add: balancedText_def)
  show False
  proof (cases m)
    case Outside
    with rest inner have "e = 0" by simp
    with st Outside JSON_stringify_sealed [OF split, of 0] show False
      by simp
  next
    case Inside
    with rest inside_never_outside [of e "JSON_stringify j'" e] inner show False
      by simp
  next
    case Escaped
    with st lexstep_colon [of "fst (lex (Outside, 0) u)" "snd (lex (Outside, 0) u)"] show False
      by (simp add: lex_snoc)
  next
    case Broken
    with rest show False
      by (simp add: lex_Broken)
  qed
qed

text \<open>
  Hence the signature \<open>name:text\<close> of a call determines the pair of the name and the
  text, whatever characters the name contains.
\<close>

lemma signature_callKey:
  "signature JSON_stringify a = signature JSON_stringify b
     \<longleftrightarrow> callKey JSON_stringify a = callKey JSON_stringify b"
proof
  assume "callKey JSON_stringify a = callKey JSON_stringify b"
  then show "signature JSON_stringify a = signature JSON_stringify b"
    by (simp add: callKey_def signature_def)
next
  assume "signature JSON_stringify a = signature JSON_stringify b"
  then have eq: "toolName a @ CHR '':'' # JSON_stringify (parameters a)
      = toolName b @ CHR '':'' # JSON_stringify (parameters b)"
    by (simp add: signature_def)
  let ?A = "JSON_stringify (parameters a)" and ?B = "JSON_stringify (parameters b)"
  from eq consider
    (longer) us where "toolName a = toolName b @ us" "us @ CHR '':'' # ?A = CHR '':'' # ?B"
    | (shorter) us where "toolName a @ us = toolName b" "CHR '':'' # ?A = us @ CHR '':'' # ?B"
    unfolding append_eq_append_conv2 by blast
  then show "callKey JSON_stringify a = callKey JSON_stringify b"
  proof cases
    case longer
    show ?thesis
    proof (cases us)
      case Nil
      with longer show ?thesis by (simp add: callKey_def)
    next
      case (Cons c us')
      with longer(2) have "?B = us' @ CHR '':'' # ?A" by simp
      with JSON_stringify_no_resplit [of "parameters b" us' "parameters a"] show ?thesis
        by simp
    qed
  next
    case shorter
    show ?thesis
    proof (cases us)
      case Nil
      with shorter show ?thesis by (simp add: callKey_def)
    next
      case (Cons c us')
      with shorter(2) have "?A = us' @ CHR '':'' # ?B" by simp
      with JSON_stringify_no_resplit [of "parameters a" us' "parameters b"] show ?thesis
        by simp
    qed
  qed
qed

text \<open>
  For instance, the tool \<open>a\<close> called with the object \<open>{k: 1}\<close> and a tool whose name is
  \<open>a:{"k"\<close> called with \<open>1\<close> have different signatures: the second lacks the closing
  brace.
\<close>

lemma signature_keeps_brackets:
  "signature JSON_stringify
     \<lparr>toolName = ''a'', parameters = JObject [(''k'', JNumber D1 [])], tc_result = JNull,
      executionTimeMs = 1, tc_error = None\<rparr>
   = ''a:{'' @ [CHR 0x22] @ ''k'' @ [CHR 0x22] @ '':1}''
   \<and> signature JSON_stringify
     \<lparr>toolName = ''a:{'' @ [CHR 0x22] @ ''k'' @ [CHR 0x22], parameters = JNumber D1 [],
      tc_result = JNull, executionTimeMs = 1, tc_error = None\<rparr>
   = ''a:{'' @ [CHR 0x22] @ ''k'' @ [CHR 0x22] @ '':1''"
  by (simp add: signature_def quoteJSON_def escapeChar_def)

section \<open>Properties of the retry and duplicate counts\<close>

lemma foldl_messages:
  "foldl (\<lambda>st msg. case toolCalls msg of None \<Rightarrow> st | Some calls \<Rightarrow> foldl f st calls) st msgs
     = foldl f st
         (concat (map (\<lambda>msg. case toolCalls msg of None \<Rightarrow> [] | Some calls \<Rightarrow> calls) msgs))"
  by (induction msgs arbitrary: st) (auto split: option.splits)

lemma retry_loop:
  "foldl (retryStep S) (n, Some l) calls
     = (n + adjacentRepeats S (l # calls), Some (last (l # calls)))"
proof (induction calls arbitrary: n l)
  case Nil
  then show ?case by simp
next
  case (Cons c cs)
  have "retryStep S (n, Some l) c = (n + (if identicalCall S l c then 1 else 0), Some c)"
    by (simp add: retryStep_def identicalCall_def callKey_def)
  with Cons.IH [of "n + (if identicalCall S l c then 1 else 0)" c] show ?case
    by simp
qed

lemma countRetries_loop:
  "countRetries S c = fst (foldl (retryStep S) (0, None) (transcriptCalls c))"
  by (simp add: countRetries_def foldl_messages transcriptCalls_def)

lemma countRetries_adjacent: "countRetries S c = adjacentRepeats S (transcriptCalls c)"
proof (cases "transcriptCalls c")
  case Nil
  then show ?thesis
    by (simp add: countRetries_loop)
next
  case (Cons x xs)
  have "retryStep S (0, None) x = (0, Some x)"
    by (simp add: retryStep_def)
  with Cons retry_loop [of S 0 x xs] show ?thesis
    by (simp add: countRetries_loop)
qed

lemma adjacentRepeats_snoc:
  "adjacentRepeats S (xs @ [a])
     = adjacentRepeats S xs + (if xs \<noteq> [] \<and> identicalCall S (last xs) a then 1 else 0)"
  by (induction S xs rule: adjacentRepeats.induct) auto

text \<open>The occurrences beyond the first, as length minus number of distinct elements.\<close>

lemma beyond_first_count:
  "sum_list (map (\<lambda>s. count_list xs s - 1) (remdups xs)) = length xs - card (set xs)"
proof -
  have "sum_list (map (\<lambda>s. count_list xs s - 1) (remdups xs))
      = (\<Sum>s\<in>set xs. count_list xs s - 1)"
    using sum.distinct_set_conv_list [of "remdups xs" "\<lambda>s. count_list xs s - 1"] by simp
  also have "\<dots> = (\<Sum>s\<in>set xs. count_list xs s) - (\<Sum>s\<in>set xs. 1)"
  proof (rule sum_subtractf_nat)
    fix s assume "s \<in> set xs"
    then have "count_list xs s \<noteq> 0"
      by (simp add: count_list_0_iff)
    then show "1 \<le> count_list xs s" by simp
  qed
  also have "(\<Sum>s\<in>set xs. count_list xs s) = length xs"
    by (rule sum_count_set) simp_all
  finally show ?thesis by simp
qed

text \<open>
  The program's loop over the map of signatures: with the signatures seen so far in the
  map, it adds one for every call whose signature the map already has.
\<close>

lemma duplicate_loop:
  "snd (foldl (duplicateStep S)
          ((\<lambda>s. if s \<in> set seen then Some (count_list seen s) else None), d) calls)
     + (length seen - card (set seen))
   = d + (length (seen @ map (signature S) calls) - card (set (seen @ map (signature S) calls)))"
proof (induction calls arbitrary: seen d)
  case Nil
  then show ?case by simp
next
  case (Cons c cs)
  let ?x = "signature S c"
  let ?b = "if ?x \<in> set seen then 1 else 0 :: nat"
  have step: "duplicateStep S ((\<lambda>s. if s \<in> set seen then Some (count_list seen s) else None), d) c
      = ((\<lambda>s. if s \<in> set (seen @ [?x]) then Some (count_list (seen @ [?x]) s) else None), d + ?b)"
    by (auto simp: duplicateStep_def Let_def fun_eq_iff count_list_0_iff)
  have grow: "length (seen @ [?x]) - card (set (seen @ [?x])) = (length seen - card (set seen)) + ?b"
    using card_length [of seen] by (auto simp: insert_absorb card_insert_if)
  from Cons.IH [of "seen @ [?x]" "d + ?b"] step grow show ?case
    by simp
qed

lemma countDuplicateToolCalls_signatures:
  "countDuplicateToolCalls S c
     = length (transcriptCalls c) - card (signature S ` set (transcriptCalls c))"
proof -
  have "(\<lambda>s. if s \<in> set [] then Some (count_list [] s) else None) = (Map.empty :: string \<rightharpoonup> nat)"
    by simp
  with duplicate_loop [of S "[]" 0 "transcriptCalls c"] show ?thesis
    by (simp add: countDuplicateToolCalls_def foldl_messages transcriptCalls_def)
qed

text \<open>
  The specification's count is over pairs. As many signatures occur among some calls as
  pairs of tool name and serialized parameters do, because the signature determines the
  pair.
\<close>

lemma repeatsBeyondFirst_card:
  "repeatsBeyondFirst S calls = length calls - card (callKey S ` set calls)"
  using beyond_first_count [of "map (callKey S) calls"]
  by (simp add: repeatsBeyondFirst_def Let_def)

lemma card_signatures:
  "card (signature JSON_stringify ` X) = card (callKey JSON_stringify ` X)"
proof -
  let ?h = "\<lambda>key. fst key @ '':'' @ snd key"
  have "inj_on ?h (callKey JSON_stringify ` X)"
  proof (rule inj_onI)
    fix k k'
    assume "k \<in> callKey JSON_stringify ` X" "k' \<in> callKey JSON_stringify ` X" "?h k = ?h k'"
    then obtain a b where "k = callKey JSON_stringify a" "k' = callKey JSON_stringify b"
      "signature JSON_stringify a = signature JSON_stringify b"
      by (auto simp: callKey_def signature_def)
    then show "k = k'"
      by (simp add: signature_callKey)
  qed
  then have "card (?h ` callKey JSON_stringify ` X) = card (callKey JSON_stringify ` X)"
    by (rule card_image)
  moreover have "?h ` callKey JSON_stringify ` X = signature JSON_stringify ` X"
    by (simp add: image_image callKey_def signature_def)
  ultimately show ?thesis by simp
qed

lemma countDuplicateToolCalls_beyond_first:
  "countDuplicateToolCalls JSON_stringify c = repeatsBeyondFirst JSON_stringify (transcriptCalls c)"
  by (simp add: countDuplicateToolCalls_signatures repeatsBeyondFirst_card card_signatures)

lemma repeatsBeyondFirst_snoc:
  "repeatsBeyondFirst S (xs @ [a])
     = repeatsBeyondFirst S xs + (if callKey S a \<in> callKey S ` set xs then 1 else 0)"
proof -
  have "card (callKey S ` set xs) \<le> length xs"
    using card_length [of "map (callKey S) xs"] by simp
  then show ?thesis
    by (auto simp: repeatsBeyondFirst_card insert_absorb card_insert_if)
qed

text \<open>
  Claim C5. Over any conversation, the retry count is the number of tool calls whose
  pair of tool name and serialized parameters equals that of the immediately preceding
  tool call of the transcript, message boundaries ignored; the duplicate count is the
  number of tool-call occurrences beyond the first per pair of tool name and serialized
  parameters, wherever in the transcript they are. In particular, when a transcript is
  extended by a call that is identical to an earlier call but not to the call just before
  it, the duplicate count grows by one and the retry count does not. The serializer is
  \<open>JSON.stringify\<close>; the first statement holds for every serializer \<open>S\<close>.
\<close>

theorem retry_and_duplicate_counts:
  "countRetries S c = adjacentRepeats S (transcriptCalls c)
   \<and> countDuplicateToolCalls JSON_stringify c
       = repeatsBeyondFirst JSON_stringify (transcriptCalls c)
   \<and> (transcriptCalls c' = transcriptCalls c @ [a]
        \<and> list_ex (\<lambda>b. identicalCall JSON_stringify b a) (transcriptCalls c)
        \<and> \<not> identicalCall JSON_stringify (last (transcriptCalls c)) a
      \<longrightarrow> countDuplicateToolCalls JSON_stringify c' = countDuplicateToolCalls JSON_stringify c + 1
          \<and> countRetries JSON_stringify c' = countRetries JSON_stringify c)"
proof -
  let ?J = JSON_stringify
  have "countDuplicateToolCalls ?J c' = countDuplicateToolCalls ?J c + 1
      \<and> countRetries ?J c' = countRetries ?J c"
    if ext: "transcriptCalls c' = transcriptCalls c @ [a]"
      and earlier: "list_ex (\<lambda>b. identicalCall ?J b a) (transcriptCalls c)"
      and apart: "\<not> identicalCall ?J (last (transcriptCalls c)) a"
  proof -
    from earlier obtain b where b: "b \<in> set (transcriptCalls c)" "identicalCall ?J b a"
      by (auto simp: list_ex_iff)
    from b(2) have "callKey ?J a = callKey ?J b"
      by (simp add: identicalCall_def)
    with b(1) have "callKey ?J a \<in> callKey ?J ` set (transcriptCalls c)"
      by simp
    then have "repeatsBeyondFirst ?J (transcriptCalls c @ [a])
        = repeatsBeyondFirst ?J (transcriptCalls c) + 1"
      by (simp add: repeatsBeyondFirst_snoc)
    moreover from apart have "adjacentRepeats ?J (transcriptCalls c @ [a])
        = adjacentRepeats ?J (transcriptCalls c)"
      by (simp add: adjacentRepeats_snoc)
    ultimately show ?thesis
      by (simp add: countRetries_adjacent countDuplicateToolCalls_beyond_first ext)
  qed
  then show ?thesis
    by (simp add: countRetries_adjacent countDuplicateToolCalls_beyond_first)
qed

text \<open>
  On a transcript that reads \<open>/a.txt\<close>, reads \<open>/b.txt\<close> and reads \<open>/a.txt\<close> again, across
  three messages: no retry, one duplicate. On a transcript that reads \<open>/a.txt\<close> and then
  writes it, with the same parameters: no duplicate, the tool names differ.
\<close>

theorem retry_and_duplicate_counts_witness:
  "countRetries JSON_stringify
     (sampleConversation
        [sampleMessage (Some [sampleCall ''file_read'' ''/a.txt'']), sampleMessage None,
         sampleMessage (Some [sampleCall ''file_read'' ''/b.txt'']),
         sampleMessage (Some [sampleCall ''file_read'' ''/a.txt''])]) = 0
   \<and> countDuplicateToolCalls JSON_stringify
     (sampleConversation
        [sampleMessage (Some [sampleCall ''file_read'' ''/a.txt'']), sampleMessage None,
         sampleMessage (Some [sampleCall ''file_read'' ''/b.txt'']),
         sampleMessage (Some [sampleCall ''file_read'' ''/a.txt''])]) = 1
   \<and> countDuplicateToolCalls JSON_stringify
     (sampleConversation
        [sampleMessage (Some [sampleCall ''file_read'' ''/a.txt'', sampleCall ''file_write'' ''/a.txt''])])
       = 0"
proof -
  let ?J = JSON_stringify
  let ?A = "sampleCall ''file_read'' ''/a.txt''"
  let ?B = "sampleCall ''file_read'' ''/b.txt''"
  let ?W = "sampleCall ''file_write'' ''/a.txt''"
  let ?c = "sampleConversation [sampleMessage (Some [?A]), sampleMessage None, sampleMessage (Some [?B])]"
  let ?c' = "sampleConversation
    [sampleMessage (Some [?A]), sampleMessage None, sampleMessage (Some [?B]), sampleMessage (Some [?A])]"
  let ?w = "sampleConversation [sampleMessage (Some [?A, ?W])]"
  have calls: "transcriptCalls ?c = [?A, ?B]" "transcriptCalls ?c' = transcriptCalls ?c @ [?A]"
    "transcriptCalls ?w = [?A, ?W]"
    by (simp_all add: transcriptCalls_def sampleConversation_def sampleMessage_def)
  have keys: "callKey ?J ?A = (''file_read'', [CHR 0x22] @ ''/a.txt'' @ [CHR 0x22])"
    "callKey ?J ?B = (''file_read'', [CHR 0x22] @ ''/b.txt'' @ [CHR 0x22])"
    "callKey ?J ?W = (''file_write'', [CHR 0x22] @ ''/a.txt'' @ [CHR 0x22])"
    by (simp_all add: callKey_def sampleCall_def quoteJSON_def escapeChar_def)
  have differ: "\<not> identicalCall ?J ?B ?A" "\<not> identicalCall ?J ?A ?B"
    by (simp_all add: identicalCall_def keys)
  have same: "identicalCall ?J ?A ?A"
    by (simp add: identicalCall_def)
  have distinct_keys: "repeatsBeyondFirst ?J [?A, ?B] = 0" "repeatsBeyondFirst ?J [?A, ?W] = 0"
    by (simp_all add: repeatsBeyondFirst_def keys)
  note counts = retry_and_duplicate_counts [of ?J ?c ?c' ?A]
  from counts have "countRetries ?J ?c = adjacentRepeats ?J (transcriptCalls ?c)"
    by (rule conjunct1)
  then have retries: "countRetries ?J ?c = 0"
    by (simp add: calls(1) differ)
  from counts have "countDuplicateToolCalls ?J ?c = repeatsBeyondFirst ?J (transcriptCalls ?c)"
    by (rule conjunct1 [OF conjunct2])
  then have duplicates: "countDuplicateToolCalls ?J ?c = 0"
    by (simp add: calls(1) distinct_keys)
  have later: "transcriptCalls ?c' = transcriptCalls ?c @ [?A]
      \<and> list_ex (\<lambda>b. identicalCall ?J b ?A) (transcriptCalls ?c)
      \<and> \<not> identicalCall ?J (last (transcriptCalls ?c)) ?A"
    using calls(2) differ same by (simp add: calls(1))
  from counts have "transcriptCalls ?c' = transcriptCalls ?c @ [?A]
      \<and> list_ex (\<lambda>b. identicalCall ?J b ?A) (transcriptCalls ?c)
      \<and> \<not> identicalCall ?J (last (transcriptCalls ?c)) ?A
      \<longrightarrow> countDuplicateToolCalls ?J ?c' = countDuplicateToolCalls ?J ?c + 1
          \<and> countRetries ?J ?c' = countRetries ?J ?c"
    by (rule conjunct2 [OF conjunct2])
  with later have grown: "countDuplicateToolCalls ?J ?c' = countDuplicateToolCalls ?J ?c + 1
      \<and> countRetries ?J ?c' = countRetries ?J ?c"
    by (rule rev_mp)
  from retry_and_duplicate_counts [of ?J ?w ?w ?A]
  have "countDuplicateToolCalls ?J ?w = repeatsBeyondFirst ?J (transcriptCalls ?w)"
    by (rule conjunct1 [OF conjunct2])
  then have "countDuplicateToolCalls ?J ?w = 0"
    by (simp add: calls(3) distinct_keys)
  with grown retries duplicates show ?thesis by simp
qed

section \<open>Properties of the subprocess runner and the suite runner\<close>

lemma executeTest_testId:
  "executeTest runner content test runId env = Inr r \<Longrightarrow> testId r = test_id test"
  by (auto simp: executeTest_def Let_def split: option.splits sum.splits)


lemma runTests_quiet:
  assumes "\<And>test. notifyTestStart callbacks test = None"
    and "\<And>test result. notifyTestComplete callbacks test result = None"
    and "\<And>completed n. notifyProgress callbacks completed n = None"
  shows "runTests runner content runId env callbacks n (results, completed) ts
     = Inr (results @
       map (\<lambda>(i, test). case executeTest runner content test runId (env i) of
                   Inr r \<Rightarrow> r
                 | Inl err \<Rightarrow> createFailedResult test runId err (env_failureTime (env i)))
         (List.enumerate completed ts))"
  by (induction ts arbitrary: results completed)
    (simp_all add: assms tryTest_def catchBlock_def Let_def split: sum.splits)

text \<open>
  With observers that return normally (none, in particular) the run does what claim C7
  says: one result per test, in suite order and carrying the test's id, the result of
  \<open>executeTest\<close> or the synthesized failed result.
\<close>

lemma runTestSuite_quiet_observers:
  assumes "\<And>test. notifyTestStart callbacks test = None"
    and "\<And>test result. notifyTestComplete callbacks test result = None"
    and "\<And>completed n. notifyProgress callbacks completed n = None"
  shows "\<exists>results. runTestSuite runner claudeFile suite runId env callbacks = Inr results
     \<and> length results = length (tests suite)
     \<and> (\<forall>i < length (tests suite).
          testId (results ! i) = test_id (tests suite ! i)
          \<and> (case executeTest runner (cf_content claudeFile) (tests suite ! i) runId (env i) of
               Inr r \<Rightarrow> results ! i = r
             | Inl err \<Rightarrow>
                 results ! i
                   = createFailedResult (tests suite ! i) runId err (env_failureTime (env i))
                 \<and> startsWith (response (results ! i)) ''Test failed:''
                 \<and> scores (results ! i)
                     = \<lparr>correctness = 0, speed = 0, tokenEfficiency = 0, documentation = 0,
                        codeQuality = 0, security = 0, instructionAdherence = 0, consistency = 0,
                        errorRecovery = 0\<rparr>))"
proof -
  let ?outcome = "\<lambda>i. case executeTest runner (cf_content claudeFile) (tests suite ! i) runId (env i) of
                   Inr r \<Rightarrow> r
                 | Inl err \<Rightarrow>
                     createFailedResult (tests suite ! i) runId err (env_failureTime (env i))"
  define results where "results
      = map (\<lambda>(i, test). case executeTest runner (cf_content claudeFile) test runId (env i) of
                   Inr r \<Rightarrow> r
                 | Inl err \<Rightarrow> createFailedResult test runId err (env_failureTime (env i)))
          (List.enumerate 0 (tests suite))"
  have run: "runTestSuite runner claudeFile suite runId env callbacks = Inr results"
    using runTests_quiet [OF assms, of runner "cf_content claudeFile" runId env
        "length (tests suite)" "[]" 0 "tests suite"]
    by (simp add: runTestSuite_def results_def)
  have len: "length results = length (tests suite)"
    by (simp add: results_def)
  have nth: "results ! i = ?outcome i" if "i < length (tests suite)" for i
    using that by (simp add: results_def nth_enumerate_eq)
  have each: "testId (?outcome i) = test_id (tests suite ! i)
      \<and> (case executeTest runner (cf_content claudeFile) (tests suite ! i) runId (env i) of
           Inr r \<Rightarrow> ?outcome i = r
         | Inl err \<Rightarrow>
             ?outcome i = createFailedResult (tests suite ! i) runId err (env_failureTime (env i))
             \<and> startsWith (response (?outcome i)) ''Test failed:''
             \<and> scores (?outcome i)
                 = \<lparr>correctness = 0, speed = 0, tokenEfficiency = 0, documentation = 0,
                    codeQuality = 0, security = 0, instructionAdherence = 0, consistency = 0,
                    errorRecovery = 0\<rparr>)" for i
  proof (cases "executeTest runner (cf_content claudeFile) (tests suite ! i) runId (env i)")
    case (Inl err)
    then show ?thesis
      by (simp add: createFailedResult_def zeroScores_def)
  next
    case (Inr r)
    then show ?thesis
      by (simp add: executeTest_testId)
  qed
  show ?thesis
  proof (intro exI conjI allI impI)
    show "runTestSuite runner claudeFile suite runId env callbacks = Inr results"
      by (rule run)
  next
    show "length results = length (tests suite)"
      by (rule len)
  next
    fix i assume i: "i < length (tests suite)"
    from each [of i] show "testId (results ! i) = test_id (tests suite ! i)"
      unfolding nth [OF i] by (rule conjunct1)
  next
    fix i assume i: "i < length (tests suite)"
    from each [of i]
    show "case executeTest runner (cf_content claudeFile) (tests suite ! i) runId (env i) of
            Inr r \<Rightarrow> results ! i = r
          | Inl err \<Rightarrow>
              results ! i = createFailedResult (tests suite ! i) runId err (env_failureTime (env i))
              \<and> startsWith (response (results ! i)) ''Test failed:''
              \<and> scores (results ! i)
                  = \<lparr>correctness = 0, speed = 0, tokenEfficiency = 0, documentation = 0,
                     codeQuality = 0, security = 0, instructionAdherence = 0, consistency = 0,
                     errorRecovery = 0\<rparr>"
      unfolding nth [OF i] by (rule conjunct2)
  qed
qed








lemma timedOutRun_value:
  "timedOutRun = Inr
     \<lparr>testRunId = 1, testId = ''t1'', prompt = ''Create a file'',
      response = ''Creates hello.txt\<newline>[TIMEOUT]'',
      tokensInput = 6, tokensOutput = 7, tokensThinking = None, responseTimeMs = 120004,
      scores =
        \<lparr>correctness = 7, speed = 6, tokenEfficiency = 7, documentation = 7, codeQuality = 7,
         security = 7, instructionAdherence = 7, consistency = 7, errorRecovery = 4\<rparr>,
      conversation =
        \<lparr>messages =
           [\<lparr>msg_role = User, msg_content = ''Create a file'', msg_thinking = None,
             toolCalls = None, msg_timestamp = 1000,
             msg_tokens = Some \<lparr>tk_input = 4, tk_output = 0, tk_thinking = None\<rparr>\<rparr>,
            \<lparr>msg_role = Assistant, msg_content = ''Creates hello.txt\<newline>[TIMEOUT]'',
             msg_thinking = None, toolCalls = None, msg_timestamp = 121004,
             msg_tokens = Some \<lparr>tk_input = 0, tk_output = 7, tk_thinking = None\<rparr>\<rparr>],
         totalDurationMs = 120004,
         modelConfig = \<lparr>mc_model = ''claude-code'', mc_temperature = 0, mc_maxTokens = 0\<rparr>\<rparr>,
      metricsRaw =
        \<lparr>allToolCalls = [],
         fileOperations =
           [\<lparr>op_type = OpWrite, op_path = ''ws/hello.txt'', op_content = None,
             op_timestamp = 2000, op_success = True\<rparr>],
         commandsExecuted = [],
         errorsEncountered =
           [\<lparr>ev_type = ''execution_error'', ev_message = ''Process timed out'', ev_stack = None,
             ev_timestamp = 2000, recovered = False\<rparr>],
         retryAttempts = 0\<rparr>\<rparr>"
  by (simp add: timedOutRun_def sampleTest_def sampleRunner_def sampleEnv_def
      ClaudeCodeRunner_new_def executeTest_def collectMetrics_def estimateTokens_def
      endsWith_def Let_def)

lemma timedOutRun_fields:
  "\<not> isl timedOutRun"
  "response (projr timedOutRun) = ''Creates hello.txt\<newline>[TIMEOUT]''"
  "responseTimeMs (projr timedOutRun) = 120004"
  "correctness (scores (projr timedOutRun)) = 7"
  "map ev_type (errorsEncountered (metricsRaw (projr timedOutRun))) = [''execution_error'']"
  "map recovered (errorsEncountered (metricsRaw (projr timedOutRun))) = [False]"
  "retryAttempts (metricsRaw (projr timedOutRun)) = 0"
  by (simp_all add: timedOutRun_value)

lemma timedOutRun_keywords:
  "extractKeywords (''Creates hello.txt\<newline>[TIMEOUT]'')
     = [''creates'', ''hello'', ''timeout'']"
  by (simp add: extractKeywords_def toLowerCase_def toLowerChar_def isWordChar_def)

lemma timedOutRun_no_marker:
  "\<not> includes_str (''Creates hello.txt\<newline>[TIMEOUT]'') ''Test failed:''"
  by (simp add: includes_str_def)

lemma timedOutRun_correctness:
  "CorrectnessEvaluator_evaluate (sampleTest ''t1'') (projr timedOutRun)
     (conversation (projr timedOutRun)) (metricsRaw (projr timedOutRun)) = 8"
proof -
  have errs: "errorsEncountered (metricsRaw (projr timedOutRun))
      = [\<lparr>ev_type = ''execution_error'', ev_message = ''Process timed out'', ev_stack = None,
           ev_timestamp = 2000, recovered = False\<rparr>]"
    by (simp add: timedOutRun_value)
  show ?thesis
    by (simp add: CorrectnessEvaluator_evaluate_def timedOutRun_fields errs sampleTest_def
        sample_keywords timedOutRun_keywords timedOutRun_no_marker calculateKeywordMatch_def
        normalizeScore_def Let_def)
qed

text \<open>
  Claim C8, as stated: a test that exceeds its timeout yields a result whose correctness
  score is 0 and whose error event has a kind that reflects the timeout. In the run
  \<open>timedOutRun\<close> the timer fires 4 ms after the configured 120000 ms: the result has a
  response time of 120004 ms, but its correctness score is 7 (the correctness evaluator
  gives 8 on it) and the kind of its only error event is \<open>execution_error\<close>.
\<close>

theorem timeout_correctness_not_zero:
  "\<not> isl timedOutRun
   \<and> testTimeout sampleRunner (sampleTest ''t1'') = 120000
   \<and> responseTimeMs (projr timedOutRun) = 120004
   \<and> correctness (scores (projr timedOutRun)) = 7
   \<and> CorrectnessEvaluator_evaluate (sampleTest ''t1'') (projr timedOutRun)
        (conversation (projr timedOutRun)) (metricsRaw (projr timedOutRun)) = 8
   \<and> map ev_type (errorsEncountered (metricsRaw (projr timedOutRun))) = [''execution_error'']"
proof -
  have "testTimeout sampleRunner (sampleTest ''t1'') = 120000"
    by (simp add: testTimeout_def sampleTest_def sampleRunner_def ClaudeCodeRunner_new_def)
  then show ?thesis
    by (simp add: timedOutRun_fields timedOutRun_correctness)
qed

text \<open>
  Claim C8, amended. When the workspace is set up and the timeout timer settles the run,
  \<open>executeTest\<close> returns a result whose \<open>responseTimeMs\<close> is the elapsed time read when the
  timer fired (at least the configured timeout, the timer not being early), whose response
  is the captured output followed by a line \<open>[TIMEOUT]\<close>, and whose only error event has
  kind \<open>execution_error\<close>, message \<open>Process timed out\<close> and is unrecovered. Its correctness
  score is not 0: the stored score is the fixed 7, and for a test without expected
  behaviour the correctness evaluator gives 8 on it, unless the response contains the
  marker \<open>Test failed:\<close>.
\<close>

theorem timeout_result:
  assumes "env_mkdirError env = None" and "env_writeFileError env = None"
    and "env_process env = TimerFired out elapsed"
    and "testTimeout runner test \<le> elapsed"
  shows "\<exists>r. executeTest runner content test runId env = Inr r
           \<and> responseTimeMs r = elapsed
           \<and> testTimeout runner test \<le> responseTimeMs r
           \<and> response r = out @ [CHR 0x0A] @ ''[TIMEOUT]''
           \<and> errorsEncountered (metricsRaw r)
               = [\<lparr>ev_type = ''execution_error'', ev_message = ''Process timed out'',
                    ev_stack = None, ev_timestamp = env_metricsTime env, recovered = False\<rparr>]
           \<and> correctness (scores r) = 7
           \<and> (expectedBehavior test = None \<longrightarrow>
                CorrectnessEvaluator_evaluate test r (conversation r) (metricsRaw r)
                  = (if includes_str (response r) ''Test failed:'' then 0 else 8))"
  using assms
  by (simp add: executeTest_def collectMetrics_def CorrectnessEvaluator_evaluate_def
      normalizeScore_def Let_def)

theorem timeout_result_witness:
  "testTimeout sampleRunner ((sampleTest ''t1'')\<lparr>expectedBehavior := None\<rparr>) \<le> 120004
   \<and> (\<exists>r. executeTest sampleRunner ''Be brief.'' ((sampleTest ''t1'')\<lparr>expectedBehavior := None\<rparr>) 1
             (sampleEnv (TimerFired ''Creates hello.txt'' 120004)) = Inr r
          \<and> responseTimeMs r = 120004
          \<and> response r = ''Creates hello.txt\<newline>[TIMEOUT]''
          \<and> correctness (scores r) = 7
          \<and> CorrectnessEvaluator_evaluate ((sampleTest ''t1'')\<lparr>expectedBehavior := None\<rparr>) r
               (conversation r) (metricsRaw r) = 8)"
proof -
  let ?test = "(sampleTest ''t1'')\<lparr>expectedBehavior := None\<rparr>"
  let ?env = "sampleEnv (TimerFired ''Creates hello.txt'' 120004)"
  have late: "testTimeout sampleRunner ?test \<le> 120004"
    by (simp add: testTimeout_def sampleTest_def sampleRunner_def ClaudeCodeRunner_new_def)
  have env: "env_mkdirError ?env = None" "env_writeFileError ?env = None"
    "env_process ?env = TimerFired ''Creates hello.txt'' 120004"
    by (simp_all add: sampleEnv_def)
  have none: "expectedBehavior ?test = None"
    by simp
  from timeout_result [OF env late, of "''Be brief.''" 1] none timedOutRun_no_marker late
  show ?thesis by auto
qed

text \<open>
  Claim C10. Every \<open>RawMetrics\<close> value produced by \<open>collectMetrics\<close> has no tool calls
  and a retry count of 0, whatever the workspace and the execution result. Hence, in
  every result produced by \<open>executeTest\<close>, the guard of the correctness retry penalty is
  false, the transcript yields no retry and no \<open>tool_error\<close> event, and every recorded
  error event has kind \<open>execution_error\<close>.
\<close>

theorem collectMetrics_no_tool_calls:
  "allToolCalls (collectMetrics workspaceFiles now executionResult) = []
   \<and> retryAttempts (collectMetrics workspaceFiles now executionResult) = 0
   \<and> (executeTest runner content test runId env = Inr r \<longrightarrow>
        allToolCalls (metricsRaw r) = []
        \<and> retryAttempts (metricsRaw r) = 0
        \<and> \<not> retryAttempts (metricsRaw r) > 0
        \<and> countRetries S (conversation r) = 0
        \<and> extractErrors (conversation r) = []
        \<and> list_all (\<lambda>e. ev_type e = ''execution_error'') (errorsEncountered (metricsRaw r)))"
  by (auto simp: collectMetrics_def executeTest_def countRetries_def extractErrors_def
      retryStep_def Let_def split: option.splits sum.splits)

theorem collectMetrics_no_tool_calls_witness:
  "\<not> isl timedOutRun
   \<and> allToolCalls (metricsRaw (projr timedOutRun)) = []
   \<and> retryAttempts (metricsRaw (projr timedOutRun)) = 0
   \<and> countRetries sampleStringify (conversation (projr timedOutRun)) = 0
   \<and> extractErrors (conversation (projr timedOutRun)) = []
   \<and> map ev_type (errorsEncountered (metricsRaw (projr timedOutRun))) = [''execution_error'']"
proof -
  have run: "executeTest sampleRunner ''Be brief.'' (sampleTest ''t1'') 1
      (sampleEnv (TimerFired ''Creates hello.txt'' 120004)) = Inr (projr timedOutRun)"
    using timedOutRun_fields(1) by (simp add: timedOutRun_def [symmetric])
  from collectMetrics_no_tool_calls [of "[]" 0 "projr (runClaudeCode (TimerFired [] 0))"
      sampleRunner "''Be brief.''" "sampleTest ''t1''" 1
      "sampleEnv (TimerFired ''Creates hello.txt'' 120004)" "projr timedOutRun" sampleStringify]
    run timedOutRun_fields
  show ?thesis by simp
qed

end
